theory Spec2Isabelle
  imports Main "HOL-Library.Word" "HOL-Library.Char_ord" "HOL-Library.List_Lexorder"
begin

unbundle bit_operations_syntax

section \<open>The wheel descriptor of whl.py\<close>

text \<open>
  A shallow embedding of \<^verbatim>\<open>rules_python/whl.py\<close>. Python strings are \<open>string\<close>
  (the metadata is decoded as ASCII, so one \<open>char\<close> is one code point), Python
  exceptions are values of \<open>exn\<close> on the left of a sum, and the mutable cache
  \<^verbatim>\<open>self._metadata\<close> is a field of the descriptor that every stateful method
  returns updated.
\<close>

subsection \<open>Exceptions\<close>

datatype exn =
    IndexError
  | KeyError string
  | FileNotFoundError string
  | BadZipFile string
  | InvalidRequirement string
  | UndefinedEnvironmentName string
  | UndefinedComparison string
  | InvalidVersion string
  | TypeError
  | NotModelled string

subsection \<open>Python string and list primitives\<close>

text \<open>\<^verbatim>\<open>s.split(sep)\<close> for a one-character separator: always at least one part.\<close>

fun split_sep :: "char \<Rightarrow> string \<Rightarrow> string list" where
  "split_sep sep [] = [[]]"
| "split_sep sep (c # cs) =
     (if c = sep then [] # split_sep sep cs
      else (case split_sep sep cs of
              [] \<Rightarrow> [[c]]
            | p # ps \<Rightarrow> (c # p) # ps))"

text \<open>\<^verbatim>\<open>sep.join(xs)\<close>.\<close>

fun join :: "string \<Rightarrow> string list \<Rightarrow> string" where
  "join sep [] = []"
| "join sep [x] = x"
| "join sep (x # y # ys) = x @ sep @ join sep (y # ys)"

text \<open>\<^verbatim>\<open>s.endswith(suffix)\<close> and \<^verbatim>\<open>s.startswith(prefix)\<close>.\<close>

definition endswith :: "string \<Rightarrow> string \<Rightarrow> bool" where
  "endswith s suf \<longleftrightarrow> length suf \<le> length s \<and> drop (length s - length suf) s = suf"

definition startswith :: "string \<Rightarrow> string \<Rightarrow> bool" where
  "startswith s pre \<longleftrightarrow> take (length pre) s = pre"

text \<open>\<^verbatim>\<open>os.path.join(a, b)\<close> (posixpath).\<close>

definition os_path_join :: "string \<Rightarrow> string \<Rightarrow> string" where
  "os_path_join a b =
     (if startswith b ''/'' then b
      else if a = [] \<or> endswith a ''/'' then a @ b
      else a @ ''/'' @ b)"

text \<open>
  \<^verbatim>\<open>os.path.normpath\<close> (posixpath): empty and \<^verbatim>\<open>.\<close> components go, a \<^verbatim>\<open>..\<close>
  takes the component before it away, and exactly two leading slashes stay two.
\<close>

definition initial_slashes :: "string \<Rightarrow> nat" where
  "initial_slashes p =
     (if startswith p ''/''
      then (if startswith p ''//'' \<and> \<not> startswith p ''///'' then 2 else 1)
      else 0)"

fun norm_comps :: "nat \<Rightarrow> string list \<Rightarrow> string list \<Rightarrow> string list" where
  "norm_comps init new_comps [] = new_comps"
| "norm_comps init new_comps (part # parts) =
     (if part = [] \<or> part = ''.'' then norm_comps init new_comps parts
      else if part \<noteq> ''..'' \<or> (init = 0 \<and> new_comps = [])
              \<or> (new_comps \<noteq> [] \<and> last new_comps = ''..'')
      then norm_comps init (new_comps @ [part]) parts
      else if new_comps \<noteq> [] then norm_comps init (butlast new_comps) parts
      else norm_comps init new_comps parts)"

definition normpath :: "string \<Rightarrow> string" where
  "normpath path =
     (if path = [] then ''.''
      else
        (let init = initial_slashes path;
             p = replicate init CHR ''/''
                 @ join ''/'' (norm_comps init [] (split_sep CHR ''/'' path))
         in if p = [] then ''.'' else p))"

text \<open>\<^verbatim>\<open>xs[i]\<close> for a non-negative index: IndexError out of range.\<close>

definition py_index :: "'a list \<Rightarrow> nat \<Rightarrow> exn + 'a" where
  "py_index xs i = (if i < length xs then Inr (xs ! i) else Inl IndexError)"

text \<open>\<^verbatim>\<open>os.path.basename\<close> (posixpath): everything after the last slash.\<close>

definition basename_of :: "string \<Rightarrow> string" where
  "basename_of p = rev (takeWhile (\<lambda>c. c \<noteq> CHR ''/'') (rev p))"

text \<open>
  \<^verbatim>\<open>re.sub('[' + cls + ']', repl, s)\<close> for a character class: every character of
  the class is a match of length one, and is replaced.
\<close>

definition re_sub_class :: "string \<Rightarrow> string \<Rightarrow> string \<Rightarrow> string" where
  "re_sub_class cls repl s = concat (map (\<lambda>c. if c \<in> set cls then repl else [c]) s)"

subsection \<open>The descriptor and its identity accessors\<close>

text \<open>
  The parsed METADATA (\<^verbatim>\<open>email.message.Message\<close>) is the list of its headers in
  the order of the file.
\<close>

type_synonym message = "(string \<times> string) list"

record wheel =
  wpath :: string
  wmetadata :: "message option"

definition Wheel :: "string \<Rightarrow> wheel" where
  "Wheel p = \<lparr>wpath = p, wmetadata = None\<rparr>"

definition basename :: "wheel \<Rightarrow> string" where
  "basename w = basename_of (wpath w)"

definition distribution :: "wheel \<Rightarrow> exn + string" where
  "distribution w = py_index (split_sep CHR ''-'' (basename w)) 0"

definition version :: "wheel \<Rightarrow> exn + string" where
  "version w = py_index (split_sep CHR ''-'' (basename w)) 1"

definition repository_suffix :: "wheel \<Rightarrow> exn + string" where
  "repository_suffix w =
     (case distribution w of
        Inl e \<Rightarrow> Inl e
      | Inr d \<Rightarrow>
          (case version w of
             Inl e \<Rightarrow> Inl e
           | Inr v \<Rightarrow> Inr (re_sub_class ''-.+'' ''_'' (''pypi__'' @ d @ ''_'' @ v))))"

definition dist_info :: "wheel \<Rightarrow> exn + string" where
  "dist_info w =
     (case distribution w of
        Inl e \<Rightarrow> Inl e
      | Inr d \<Rightarrow>
          (case version w of
             Inl e \<Rightarrow> Inl e
           | Inr v \<Rightarrow> Inr (d @ ''-'' @ v @ ''.dist-info'')))"

subsection \<open>Archives, the file system and the process state\<close>

text \<open>
  A \<^verbatim>\<open>zipfile.ZipInfo\<close> with the fields the code reads, and the bytes of the entry.
  \<^verbatim>\<open>external_attr\<close> is the unsigned 32-bit field of the central directory.
\<close>

record zipinfo =
  filename :: string
  external_attr :: "32 word"
  data :: string

datatype disk_file = Archive "zipinfo list" | NotAnArchive

datatype syscall = OpenArchive string | Chmod string int

text \<open>
  What the code can observe and change outside itself: the files that exist (with
  what they hold when read as an archive), the permission bits of the paths on
  disk, the umask of the process, and the log of the archive opens and chmod calls
  made so far.
\<close>

record os_state =
  disk :: "string \<rightharpoonup> disk_file"
  modes :: "string \<rightharpoonup> int"
  umask :: int
  calls :: "syscall list"

text \<open>\<^verbatim>\<open>os.umask(new)\<close>: install the new mask, return the previous one.\<close>

definition os_umask :: "int \<Rightarrow> os_state \<Rightarrow> int \<times> os_state" where
  "os_umask new s = (umask s, s\<lparr>umask := new\<rparr>)"

definition current_umask :: "os_state \<Rightarrow> int \<times> os_state" where
  "current_umask s =
     (let (mask, s1) = os_umask 0 s;
          (_, s2) = os_umask mask s1
      in (mask, s2))"

text \<open>
  \<^verbatim>\<open>os.chmod(path, mode)\<close>. The permission bits are kept per file, under the
  normal form of its path: two paths with the same normal form name the same
  file (the model has no symbolic links). The file must exist.
\<close>

definition os_chmod :: "string \<Rightarrow> int \<Rightarrow> os_state \<Rightarrow> exn + os_state" where
  "os_chmod p m s =
     (let s1 = s\<lparr>calls := calls s @ [Chmod p m]\<rparr>
      in if p \<noteq> [] \<and> normpath p \<in> dom (modes s)
         then Inr (s1\<lparr>modes := (modes s)(normpath p \<mapsto> m)\<rparr>)
         else Inl (FileNotFoundError p))"

text \<open>Octal 0o777 is 511 and 0o111 is 73.\<close>

definition set_extracted_file_to_default_mode_plus_executable ::
  "string \<Rightarrow> os_state \<Rightarrow> exn + os_state" where
  "set_extracted_file_to_default_mode_plus_executable p s =
     (let (mask, s1) = current_umask s
      in os_chmod p ((511 AND NOT mask) OR 73) s1)"

text \<open>\<^verbatim>\<open>zipfile.ZipFile(path, 'r')\<close>.\<close>

definition ZipFile :: "string \<Rightarrow> os_state \<Rightarrow> (exn + zipinfo list) \<times> os_state" where
  "ZipFile p s =
     (let s1 = s\<lparr>calls := calls s @ [OpenArchive p]\<rparr>
      in case disk s p of
           None \<Rightarrow> (Inl (FileNotFoundError p), s1)
         | Some NotAnArchive \<Rightarrow> (Inl (BadZipFile p), s1)
         | Some (Archive infos) \<Rightarrow> (Inr infos, s1))"

text \<open>
  \<^verbatim>\<open>whl.open(name).read()\<close>: the entry of that name (the last one, when the
  archive repeats a name), KeyError when there is none.
\<close>

definition zip_read :: "zipinfo list \<Rightarrow> string \<Rightarrow> exn + string" where
  "zip_read infos n =
     (case filter (\<lambda>i. filename i = n) infos of
        [] \<Rightarrow> Inl (KeyError n)
      | i # others \<Rightarrow> Inr (data (last (i # others))))"

text \<open>\<^verbatim>\<open>stat.S_ISREG\<close>: the file-type bits 0o170000 (61440) are 0o100000 (32768).\<close>

definition S_ISREG :: "32 word \<Rightarrow> bool" where
  "S_ISREG mode \<longleftrightarrow> mode AND 61440 = 32768"

subsection \<open>Extraction\<close>

text \<open>The body of the loop of \<^verbatim>\<open>expand\<close>, for one entry. The backslash is character 92.\<close>

definition expand_entry :: "string \<Rightarrow> zipinfo \<Rightarrow> os_state \<Rightarrow> exn + os_state" where
  "expand_entry directory info s =
     (let name = filename info
      in if endswith name ''/'' \<or> endswith name [CHR 0x5C] then Inr s
         else
           (let mode = drop_bit 16 (external_attr info)
            in if mode \<noteq> 0 \<and> S_ISREG mode \<and> mode AND 73 \<noteq> 0
               then set_extracted_file_to_default_mode_plus_executable
                      (os_path_join directory name) s
               else Inr s))"

fun expand_loop :: "string \<Rightarrow> zipinfo list \<Rightarrow> os_state \<Rightarrow> exn + os_state" where
  "expand_loop directory [] s = Inr s"
| "expand_loop directory (info # infos) s =
     (case expand_entry directory info s of
        Inl e \<Rightarrow> Inl e
      | Inr s1 \<Rightarrow> expand_loop directory infos s1)"

text \<open>
  \<^verbatim>\<open>ZipFile.extractall(directory)\<close> of the standard library, as far as the
  permission bits go. A member is written below the destination under its name
  made safe: the components of the name that are empty, \<^verbatim>\<open>.\<close> or \<^verbatim>\<open>..\<close> are
  dropped (so a leading slash goes), the rest is joined to the destination, and
  the result is normalised. A member whose name ends in a slash becomes a
  directory, with mode 0o777 (511) capped by the umask; any other member becomes
  a file, created with mode 0o666 (438) capped by the umask, or truncated with
  its mode unchanged when it exists. Failures of the extraction itself (a corrupt
  archive, a destination that cannot be written) are not modelled.
\<close>

definition extract_target :: "string \<Rightarrow> string \<Rightarrow> string" where
  "extract_target directory member_name =
     normpath
       (os_path_join directory
          (join ''/''
             (filter (\<lambda>x. x \<noteq> [] \<and> x \<noteq> ''.'' \<and> x \<noteq> ''..'')
                (split_sep CHR ''/'' member_name))))"

definition extract_member :: "string \<Rightarrow> zipinfo \<Rightarrow> os_state \<Rightarrow> os_state" where
  "extract_member directory info s =
     (let target = extract_target directory (filename info)
      in if target \<in> dom (modes s) then s
         else if endswith (filename info) ''/''
         then s\<lparr>modes := (modes s)(target \<mapsto> 511 AND NOT (umask s))\<rparr>
         else s\<lparr>modes := (modes s)(target \<mapsto> 438 AND NOT (umask s))\<rparr>)"

definition extractall :: "zipinfo list \<Rightarrow> string \<Rightarrow> os_state \<Rightarrow> os_state" where
  "extractall infos directory s = fold (extract_member directory) infos s"

text \<open>\<^verbatim>\<open>Wheel.expand\<close>: open the archive, extract it, then the loop over its entries.\<close>

definition expand :: "wheel \<Rightarrow> string \<Rightarrow> os_state \<Rightarrow> exn + os_state" where
  "expand w directory s =
     (case ZipFile (wpath w) s of
        (Inl e, s1) \<Rightarrow> Inl e
      | (Inr whl, s1) \<Rightarrow> expand_loop directory whl (extractall whl directory s1))"

subsection \<open>Reading METADATA\<close>

text \<open>\<^verbatim>\<open>bytes.decode('ascii', 'ignore')\<close>: the bytes from 128 on are dropped.\<close>

definition decode_ascii_ignore :: "string \<Rightarrow> string" where
  "decode_ascii_ignore bs = filter (\<lambda>c. (of_char c :: nat) < 128) bs"

text \<open>
  \<^verbatim>\<open>email.parser.Parser().parsestr\<close>, as far as the headers go. The text is cut
  into lines after every \<^verbatim>\<open>\n\<close>, \<^verbatim>\<open>\r\<close> or \<^verbatim>\<open>\r\n\<close>, the terminator staying with
  its line. The header block is the longest run of lines from the start that
  match the parser's header pattern: \<^verbatim>\<open>From \<close>, or printable characters without
  space or colon followed by a colon, or a leading blank.
\<close>

fun splitlines :: "string \<Rightarrow> string \<Rightarrow> string list" where
  "splitlines cur [] = (if cur = [] then [] else [cur])"
| "splitlines cur (c # cs) =
     (if c = CHR 0x0D then
        (case cs of
           [] \<Rightarrow> [cur @ [c]]
         | d # ds \<Rightarrow> if d = CHR 0x0A then (cur @ [c, d]) # splitlines [] ds
                    else (cur @ [c]) # splitlines [] (d # ds))
      else if c = CHR 0x0A then (cur @ [c]) # splitlines [] cs
      else splitlines (cur @ [c]) cs)"

definition header_name_char :: "char \<Rightarrow> bool" where
  "header_name_char c \<longleftrightarrow>
     (33 \<le> (of_char c :: nat) \<and> (of_char c :: nat) \<le> 126 \<and> c \<noteq> CHR '':'')"

definition headerRE_match :: "string \<Rightarrow> bool" where
  "headerRE_match line \<longleftrightarrow>
     startswith line ''From ''
     \<or> (case dropWhile header_name_char line of [] \<Rightarrow> False | c # _ \<Rightarrow> c = CHR '':'')
     \<or> (case line of [] \<Rightarrow> False | c # _ \<Rightarrow> c = CHR 0x09 \<or> c = CHR '' '')"

text \<open>\<^verbatim>\<open>s.lstrip(' \t')\<close> and \<^verbatim>\<open>s.rstrip('\r\n')\<close>.\<close>

definition lstrip_blank :: "string \<Rightarrow> string" where
  "lstrip_blank s = dropWhile (\<lambda>c. c = CHR '' '' \<or> c = CHR 0x09) s"

definition rstrip_newline :: "string \<Rightarrow> string" where
  "rstrip_newline s = rev (dropWhile (\<lambda>c. c = CHR 0x0D \<or> c = CHR 0x0A) (rev s))"

text \<open>
  The policy's \<^verbatim>\<open>header_source_parse\<close>: the name is what precedes the first colon
  of the first line, the value the rest with the continuation lines appended.
\<close>

definition header_source_parse :: "string list \<Rightarrow> string \<times> string" where
  "header_source_parse sourcelines =
     (case sourcelines of
        [] \<Rightarrow> ([], [])
      | first # rest \<Rightarrow>
          (takeWhile (\<lambda>c. c \<noteq> CHR '':'') first,
           rstrip_newline
             (lstrip_blank (drop 1 (dropWhile (\<lambda>c. c \<noteq> CHR '':'') first)) @ concat rest)))"

text \<open>
  The parser's \<^verbatim>\<open>_parse_headers\<close>; \<open>cur\<close> is \<^verbatim>\<open>lastvalue\<close>, the lines of the header
  being collected (empty when there is none). A continuation line with no header
  before it, a \<^verbatim>\<open>From \<close> line and a line with an empty name are skipped.
\<close>

fun parse_headers :: "string list \<Rightarrow> string list \<Rightarrow> message" where
  "parse_headers cur [] = (if cur = [] then [] else [header_source_parse cur])"
| "parse_headers cur (line # lines) =
     (if startswith line '' '' \<or> startswith line [CHR 0x09] then
        (if cur = [] then parse_headers cur lines
         else parse_headers (cur @ [line]) lines)
      else
        (if cur = [] then [] else [header_source_parse cur]) @
        (if startswith line ''From '' then parse_headers [] lines
         else if startswith line '':'' then parse_headers [] lines
         else parse_headers [line] lines))"

definition parsestr :: "string \<Rightarrow> message" where
  "parsestr text = parse_headers [] (takeWhile headerRE_match (splitlines [] text))"

text \<open>\<^verbatim>\<open>str.lower\<close> on ASCII text, and the two accessors of the message.\<close>

definition py_lower :: "string \<Rightarrow> string" where
  "py_lower s =
     map (\<lambda>c. case map_of (zip ''ABCDEFGHIJKLMNOPQRSTUVWXYZ'' ''abcdefghijklmnopqrstuvwxyz'') c of
                 None \<Rightarrow> c
               | Some l \<Rightarrow> l) s"

definition msg_get :: "message \<Rightarrow> string \<Rightarrow> string option" where
  "msg_get m n =
     (case filter (\<lambda>(k, v). py_lower k = py_lower n) m of
        [] \<Rightarrow> None
      | (k, v) # _ \<Rightarrow> Some v)"

text \<open>\<^verbatim>\<open>get_all(name, [])\<close>: the values in the order of the file, the empty list when there is none.\<close>

definition msg_get_all :: "message \<Rightarrow> string \<Rightarrow> string list" where
  "msg_get_all m n = map snd (filter (\<lambda>(k, v). py_lower k = py_lower n) m)"

text \<open>
  \<^verbatim>\<open>Wheel.metadata\<close>. It returns the value or the exception, the descriptor with its
  cache as the call leaves it, and the state of the system.
\<close>

definition metadata :: "wheel \<Rightarrow> os_state \<Rightarrow> (exn + message) \<times> wheel \<times> os_state" where
  "metadata w s =
     (case wmetadata w of
        Some m \<Rightarrow> (Inr m, w, s)
      | None \<Rightarrow>
          (case ZipFile (wpath w) s of
             (Inl e, s1) \<Rightarrow> (Inl e, w, s1)
           | (Inr whl, s1) \<Rightarrow>
               (case dist_info w of
                  Inl e \<Rightarrow> (Inl e, w, s1)
                | Inr d \<Rightarrow>
                    (case zip_read whl (d @ ''/METADATA'') of
                       Inl e \<Rightarrow> (Inl e, w, s1)
                     | Inr bytes \<Rightarrow>
                         (let m = parsestr (decode_ascii_ignore bytes)
                          in (Inr m, w\<lparr>wmetadata := Some m\<rparr>, s1))))))"

definition name :: "wheel \<Rightarrow> os_state \<Rightarrow> (exn + string option) \<times> wheel \<times> os_state" where
  "name w s =
     (case metadata w s of
        (Inl e, w1, s1) \<Rightarrow> (Inl e, w1, s1)
      | (Inr m, w1, s1) \<Rightarrow> (Inr (msg_get m ''Name''), w1, s1))"

definition extras :: "wheel \<Rightarrow> os_state \<Rightarrow> (exn + string set) \<times> wheel \<times> os_state" where
  "extras w s =
     (case metadata w s of
        (Inl e, w1, s1) \<Rightarrow> (Inl e, w1, s1)
      | (Inr m, w1, s1) \<Rightarrow> (Inr (set (msg_get_all m ''Provides-Extra'')), w1, s1))"

subsection \<open>The packaging library and the Python runtime, as parameters\<close>

text \<open>
  \<^verbatim>\<open>dependencies\<close> calls \<^verbatim>\<open>packaging.requirements.Requirement\<close>,
  \<^verbatim>\<open>Marker.evaluate\<close> and \<^verbatim>\<open>packaging.markers.default_environment\<close>, and it
  builds and reads Python sets. None of these is code of \<^verbatim>\<open>whl.py\<close>: they are the
  fields of a record that \<open>dependencies\<close> takes as its first argument, the marker
  type \<open>'m\<close> being the library's own. A value of a marker variable is a string or
  \<^verbatim>\<open>None\<close>.

  A Python set object is the list of its elements in the order in which it
  yields them, each element once. That order is the runtime's business: it may
  depend on the hashes of the elements and on the history of the object, so two
  set objects with the same elements need not yield them alike.
  \<^verbatim>\<open>Requirement.extras\<close> is such an object, made by the library; \<open>set_add\<close> is
  \<^verbatim>\<open>s.add(x)\<close>, the object after the insertion.
\<close>

datatype pyval = PyNone | PyStr string

type_synonym environment = "string \<rightharpoonup> pyval"

type_synonym pyset = "string list"

record 'm requirement =
  req_name :: string
  req_extras :: pyset
  req_marker :: "'m option"

record 'm pylib =
  default_environment :: environment
  Requirement :: "string \<Rightarrow> exn + 'm requirement"
  evaluate :: "'m \<Rightarrow> environment \<Rightarrow> exn + bool"
  set_add :: "string \<Rightarrow> pyset \<Rightarrow> pyset"

text \<open>
  What the code relies on when it adds to a set: the elements afterwards are the
  new one and the old ones, each once, in whatever order.
\<close>

definition set_semantics :: "'m pylib \<Rightarrow> bool" where
  "set_semantics L \<longleftrightarrow>
     (\<forall>x s. distinct s \<longrightarrow> set (set_add L x s) = insert x (set s) \<and> distinct (set_add L x s))"

subsection \<open>Dependencies\<close>

text \<open>
  Lines 123 to 129 of \<^verbatim>\<open>whl.py\<close>: the string added to \<^verbatim>\<open>dependency_set\<close> for a
  requirement that is kept. The extras are joined as their set yields them.
\<close>

definition specifier :: "'m requirement \<Rightarrow> string" where
  "specifier r =
     (if req_extras r \<noteq> []
      then req_name r @ ''['' @ join '','' (req_extras r) @ '']''
      else req_name r)"

text \<open>
  The loop over \<^verbatim>\<open>requires_dist\<close>. An exception of the parser or of the marker
  evaluation leaves the loop at once.
\<close>

fun dependency_loop ::
  "'m pylib \<Rightarrow> environment \<Rightarrow> string list \<Rightarrow> pyset \<Rightarrow> exn + pyset" where
  "dependency_loop L env [] dependency_set = Inr dependency_set"
| "dependency_loop L env (requirement # rest) dependency_set =
     (case Requirement L requirement of
        Inl e \<Rightarrow> Inl e
      | Inr parsed_requirement \<Rightarrow>
          (case req_marker parsed_requirement of
             None \<Rightarrow>
               dependency_loop L env rest
                 (set_add L (specifier parsed_requirement) dependency_set)
           | Some m \<Rightarrow>
               (case evaluate L m env of
                  Inl e \<Rightarrow> Inl e
                | Inr holds \<Rightarrow>
                    if \<not> holds then dependency_loop L env rest dependency_set
                    else dependency_loop L env rest
                           (set_add L (specifier parsed_requirement) dependency_set))))"

text \<open>\<^verbatim>\<open>environment['extra'] = extra\<close> on a fresh default environment.\<close>

definition target_environment :: "'m pylib \<Rightarrow> string option \<Rightarrow> environment" where
  "target_environment L extra =
     (default_environment L)(''extra'' \<mapsto> (case extra of None \<Rightarrow> PyNone | Some e \<Rightarrow> PyStr e))"

text \<open>
  \<^verbatim>\<open>Wheel.dependencies\<close>. \<^verbatim>\<open>sorted(dependency_set)\<close> sorts the elements as the
  set yields them.
\<close>

definition dependencies ::
  "'m pylib \<Rightarrow> wheel \<Rightarrow> string option \<Rightarrow> os_state
     \<Rightarrow> (exn + string list) \<times> wheel \<times> os_state" where
  "dependencies L w extra s =
     (let environment = target_environment L extra
      in case metadata w s of
           (Inl e, w1, s1) \<Rightarrow> (Inl e, w1, s1)
         | (Inr m, w1, s1) \<Rightarrow>
             (case dependency_loop L environment (msg_get_all m ''Requires-Dist'') [] of
                Inl e \<Rightarrow> (Inl e, w1, s1)
              | Inr dependency_set \<Rightarrow> (Inr (sort dependency_set), w1, s1)))"

text \<open>
  A parsed requirement passes the test of line 118 when it has no marker or its
  marker evaluates to true.
\<close>

definition kept :: "'m pylib \<Rightarrow> environment \<Rightarrow> 'm requirement \<Rightarrow> bool" where
  "kept L env r \<longleftrightarrow>
     (case req_marker r of None \<Rightarrow> True | Some m \<Rightarrow> evaluate L m env = Inr True)"

subsection \<open>A model of the library, to run the code on concrete METADATA\<close>

text \<open>
  An executable model of the part of \<^verbatim>\<open>packaging\<close> that common requirements
  use: a name, an optional bracketed list of extras, optional version clauses on
  plain release numbers, and an optional marker made of comparisons joined by
  \<^verbatim>\<open>and\<close> and \<^verbatim>\<open>or\<close>. What lies outside it (a URL or another form of version in
  the requirement, parentheses in a marker, a comparison that the library would
  read as a version specifier) is answered with \<open>NotModelled\<close>, never with a
  made-up result. The general theorems below do not depend on this model: they
  hold for every library. The comparison follows \<^verbatim>\<open>_eval_op\<close> of the library
  where operator and right-hand side together are no version specifier: Python's
  operator on the two values, the value of \<^verbatim>\<open>extra\<close> being \<^verbatim>\<open>None\<close> when no extra
  is requested.
\<close>

datatype operand = Variable string | Value string

datatype mnode = Cmp operand string operand | AndOp | OrOp

type_synonym marker = "mnode list"

datatype mtoken = TStr string | TWord string | TOp string | TParen

definition is_space :: "char \<Rightarrow> bool" where
  "is_space c \<longleftrightarrow> c = CHR '' '' \<or> c = CHR 0x09 \<or> c = CHR 0x0A \<or> c = CHR 0x0D"

definition is_digit :: "char \<Rightarrow> bool" where
  "is_digit c \<longleftrightarrow> c \<in> set ''0123456789''"

definition is_alnum :: "char \<Rightarrow> bool" where
  "is_alnum c \<longleftrightarrow>
     is_digit c \<or> c \<in> set ''abcdefghijklmnopqrstuvwxyzABCDEFGHIJKLMNOPQRSTUVWXYZ''"

definition is_name_char :: "char \<Rightarrow> bool" where
  "is_name_char c \<longleftrightarrow> is_alnum c \<or> c = CHR ''-'' \<or> c = CHR ''_'' \<or> c = CHR ''.''"

definition is_word_char :: "char \<Rightarrow> bool" where
  "is_word_char c \<longleftrightarrow> is_alnum c \<or> c = CHR ''_'' \<or> c = CHR ''.''"

definition is_op_char :: "char \<Rightarrow> bool" where
  "is_op_char c \<longleftrightarrow> c \<in> set ''<>=!~''"

definition strip :: "string \<Rightarrow> string" where
  "strip s = rev (dropWhile is_space (rev (dropWhile is_space s)))"

definition then_cons :: "'a \<Rightarrow> exn + 'a list \<Rightarrow> exn + 'a list" where
  "then_cons x r = (case r of Inl e \<Rightarrow> Inl e | Inr xs \<Rightarrow> Inr (x # xs))"

function marker_lex :: "string \<Rightarrow> exn + mtoken list" where
  "marker_lex [] = Inr []"
| "marker_lex (c # cs) =
     (if is_space c then marker_lex cs
      else if c = CHR 0x22 \<or> c = CHR 0x27 then
        (if dropWhile (\<lambda>d. d \<noteq> c) cs = [] then Inl (InvalidRequirement (c # cs))
         else then_cons (TStr (takeWhile (\<lambda>d. d \<noteq> c) cs))
                (marker_lex (drop 1 (dropWhile (\<lambda>d. d \<noteq> c) cs))))
      else if c = CHR ''('' \<or> c = CHR '')'' then then_cons TParen (marker_lex cs)
      else if is_op_char c then
        then_cons (TOp (c # takeWhile is_op_char cs)) (marker_lex (dropWhile is_op_char cs))
      else if is_word_char c then
        then_cons (TWord (c # takeWhile is_word_char cs)) (marker_lex (dropWhile is_word_char cs))
      else Inl (InvalidRequirement (c # cs)))"
  by pat_completeness auto
termination
  by (relation "measure length")
     (auto simp: less_Suc_eq_le length_dropWhile_le
           intro!: le_trans [OF diff_le_self length_dropWhile_le])

text \<open>The marker variables of PEP 508, with the library's older spellings.\<close>

definition marker_variables :: "(string \<times> string) list" where
  "marker_variables =
     [(''implementation_version'', ''implementation_version''),
      (''platform_python_implementation'', ''platform_python_implementation''),
      (''implementation_name'', ''implementation_name''),
      (''python_full_version'', ''python_full_version''),
      (''platform_release'', ''platform_release''),
      (''platform_version'', ''platform_version''),
      (''platform_machine'', ''platform_machine''),
      (''platform_system'', ''platform_system''),
      (''python_version'', ''python_version''),
      (''sys_platform'', ''sys_platform''),
      (''os_name'', ''os_name''),
      (''os.name'', ''os_name''),
      (''sys.platform'', ''sys_platform''),
      (''platform.version'', ''platform_version''),
      (''platform.machine'', ''platform_machine''),
      (''platform.python_implementation'', ''platform_python_implementation''),
      (''python_implementation'', ''platform_python_implementation''),
      (''extra'', ''extra'')]"

definition operand_of :: "mtoken \<Rightarrow> operand option" where
  "operand_of t =
     (case t of
        TStr v \<Rightarrow> Some (Value v)
      | TWord w \<Rightarrow> map_option Variable (map_of marker_variables w)
      | _ \<Rightarrow> None)"

definition mk_cmp :: "mtoken \<Rightarrow> string \<Rightarrow> mtoken \<Rightarrow> mnode option" where
  "mk_cmp a opr b =
     (case (operand_of a, operand_of b) of
        (Some x, Some y) \<Rightarrow> Some (Cmp x opr y)
      | _ \<Rightarrow> None)"

text \<open>One comparison: the whole of a segment between two connectives.\<close>

fun parse_cmp :: "mtoken list \<Rightarrow> mnode option" where
  "parse_cmp [a, TOp opr, b] =
     (if opr \<in> set [''<='', ''<'', ''!='', ''=='', ''>='', ''>'', ''~='', ''===''] then mk_cmp a opr b
      else None)"
| "parse_cmp [a, TWord w, b] = (if w = ''in'' then mk_cmp a ''in'' b else None)"
| "parse_cmp [a, TWord w, TWord w2, b] =
     (if w = ''not'' \<and> w2 = ''in'' then mk_cmp a ''not in'' b else None)"
| "parse_cmp _ = None"

fun marker_nodes :: "mtoken list \<Rightarrow> mtoken list \<Rightarrow> marker option" where
  "marker_nodes cur [] = map_option (\<lambda>c. [c]) (parse_cmp cur)"
| "marker_nodes cur (t # ts) =
     (if t = TWord ''and'' \<or> t = TWord ''or'' then
        (case (parse_cmp cur, marker_nodes [] ts) of
           (Some c, Some nodes) \<Rightarrow> Some (c # (if t = TWord ''and'' then AndOp else OrOp) # nodes)
         | _ \<Rightarrow> None)
      else marker_nodes (cur @ [t]) ts)"

definition parse_marker :: "string \<Rightarrow> exn + marker" where
  "parse_marker text =
     (case marker_lex text of
        Inl e \<Rightarrow> Inl e
      | Inr tokens \<Rightarrow>
          if TParen \<in> set tokens then Inl (NotModelled text)
          else (case marker_nodes [] tokens of
                  None \<Rightarrow> Inl (InvalidRequirement text)
                | Some m \<Rightarrow> Inr m))"

text \<open>
  \<^verbatim>\<open>_get_env\<close> and \<^verbatim>\<open>_eval_op\<close>. The library first tries the operator and the
  right-hand side, put together, as a version specifier, and only when that is
  none does it use the plain operator. The text is a specifier only if it starts
  with \<^verbatim>\<open>===\<close>, or with one of the other operators followed, after white space, by
  a digit or by \<^verbatim>\<open>v\<close> and a digit; \<open>may_be_specifier\<close> is that necessary condition,
  and every text that meets it is left to \<open>NotModelled\<close>. The operator read
  from the joined text need not be the one of the marker: \<^verbatim>\<open>==\<close> and \<^verbatim>\<open>=linux\<close>
  make \<^verbatim>\<open>===linux\<close>. White space is what Python's \<^verbatim>\<open>\s\<close> matches in ASCII.
\<close>

definition get_env :: "environment \<Rightarrow> string \<Rightarrow> exn + pyval" where
  "get_env env n = (case env n of None \<Rightarrow> Inl (UndefinedEnvironmentName n) | Some v \<Rightarrow> Inr v)"

definition regex_space :: "char \<Rightarrow> bool" where
  "regex_space c \<longleftrightarrow>
     c \<in> set [CHR 0x09, CHR 0x0A, CHR 0x0B, CHR 0x0C, CHR 0x0D,
               CHR 0x1C, CHR 0x1D, CHR 0x1E, CHR 0x1F, CHR '' '']"

definition version_like :: "string \<Rightarrow> bool" where
  "version_like r =
     (case dropWhile regex_space r of
        [] \<Rightarrow> False
      | c # cs \<Rightarrow>
          is_digit c
          \<or> ((c = CHR ''v'' \<or> c = CHR ''V'') \<and> (case cs of [] \<Rightarrow> False | d # _ \<Rightarrow> is_digit d)))"

definition may_be_specifier :: "string \<Rightarrow> bool" where
  "may_be_specifier t \<longleftrightarrow>
     startswith t ''===''
     \<or> (\<exists>opr \<in> set [''~='', ''=='', ''!='', ''<='', ''>='', ''<'', ''>''].
           startswith t opr \<and> version_like (drop (length opr) t))"

text \<open>\<^verbatim>\<open>a in b\<close> on strings.\<close>

definition substring :: "string \<Rightarrow> string \<Rightarrow> bool" where
  "substring a b \<longleftrightarrow> (\<exists>i \<in> set [0 ..< Suc (length b)]. take (length a) (drop i b) = a)"

definition eval_op :: "pyval \<Rightarrow> string \<Rightarrow> pyval \<Rightarrow> exn + bool" where
  "eval_op lhs opr rhs =
     (case rhs of
        PyNone \<Rightarrow> Inl TypeError
      | PyStr r \<Rightarrow>
          if may_be_specifier (opr @ r) then Inl (NotModelled (opr @ r))
          else if opr = ''in'' \<or> opr = ''not in'' then
            (case lhs of
               PyNone \<Rightarrow> Inl TypeError
             | PyStr l \<Rightarrow> Inr (if opr = ''in'' then substring l r else \<not> substring l r))
          else if opr = ''=='' then Inr (lhs = PyStr r)
          else if opr = ''!='' then Inr (lhs \<noteq> PyStr r)
          else if opr = ''~='' then Inl (UndefinedComparison opr)
          else
            (case lhs of
               PyNone \<Rightarrow> Inl TypeError
             | PyStr l \<Rightarrow>
                 if opr = ''<'' then Inr (l < r)
                 else if opr = ''<='' then Inr (l \<le> r)
                 else if opr = ''>'' then Inr (r < l)
                 else if opr = ''>='' then Inr (r \<le> l)
                 else Inl (UndefinedComparison opr)))"

definition eval_cmp :: "environment \<Rightarrow> operand \<Rightarrow> string \<Rightarrow> operand \<Rightarrow> exn + bool" where
  "eval_cmp env lhs opr rhs =
     (case lhs of
        Variable n \<Rightarrow>
          (case get_env env n of
             Inl e \<Rightarrow> Inl e
           | Inr lhs_value \<Rightarrow>
               eval_op lhs_value opr (PyStr (case rhs of Variable v \<Rightarrow> v | Value v \<Rightarrow> v)))
      | Value lhs_value \<Rightarrow>
          (case get_env env (case rhs of Variable v \<Rightarrow> v | Value v \<Rightarrow> v) of
             Inl e \<Rightarrow> Inl e
           | Inr rhs_value \<Rightarrow> eval_op (PyStr lhs_value) opr rhs_value))"

text \<open>
  \<^verbatim>\<open>_evaluate_markers\<close>: every comparison is evaluated, from left to right; the
  results are grouped at each \<^verbatim>\<open>or\<close>, and the marker holds when all the results of
  some group hold. \<open>cur\<close> is the conjunction of the group being read.
\<close>

fun evaluate_markers :: "environment \<Rightarrow> bool \<Rightarrow> marker \<Rightarrow> exn + bool" where
  "evaluate_markers env cur [] = Inr cur"
| "evaluate_markers env cur (Cmp lhs opr rhs # ms) =
     (case eval_cmp env lhs opr rhs of
        Inl e \<Rightarrow> Inl e
      | Inr b \<Rightarrow> evaluate_markers env (cur \<and> b) ms)"
| "evaluate_markers env cur (AndOp # ms) = evaluate_markers env cur ms"
| "evaluate_markers env cur (OrOp # ms) =
     (case evaluate_markers env True ms of
        Inl e \<Rightarrow> Inl e
      | Inr later \<Rightarrow> Inr (cur \<or> later))"

definition marker_evaluate :: "marker \<Rightarrow> environment \<Rightarrow> exn + bool" where
  "marker_evaluate m env = evaluate_markers env True m"

text \<open>A name or an extra: alphanumeric at both ends, punctuation only inside.\<close>

definition is_identifier :: "string \<Rightarrow> bool" where
  "is_identifier n \<longleftrightarrow> n \<noteq> [] \<and> list_all is_name_char n \<and> is_alnum (hd n) \<and> is_alnum (last n)"

text \<open>The bracketed extras at the start of a text, and what follows them.\<close>

definition parse_extras :: "string \<Rightarrow> (string list \<times> string) option" where
  "parse_extras t =
     (case t of
        [] \<Rightarrow> Some ([], [])
      | c # cs \<Rightarrow>
          if c \<noteq> CHR ''['' then Some ([], t)
          else if CHR '']'' \<notin> set cs then None
          else
            (let body = takeWhile (\<lambda>d. d \<noteq> CHR '']'') cs;
                 after = drop 1 (dropWhile (\<lambda>d. d \<noteq> CHR '']'') cs);
                 items = map strip (split_sep CHR '','' body)
             in if strip body = [] then Some ([], after)
                else if list_all is_identifier items then Some (items, after)
                else None))"

text \<open>
  The version clauses after the name and the extras, in parentheses or not:
  each an operator and a release number of digits and dots (at least two
  numbers after \<^verbatim>\<open>~=\<close>). The library accepts these; any other text there is left
  to \<open>NotModelled\<close>.
\<close>

definition release_text :: "string \<Rightarrow> bool" where
  "release_text v \<longleftrightarrow>
     list_all (\<lambda>seg. seg \<noteq> [] \<and> list_all is_digit seg) (split_sep CHR ''.'' v)"

definition version_clause :: "string \<Rightarrow> bool" where
  "version_clause c \<longleftrightarrow>
     (let t = strip c;
          opr = takeWhile is_op_char t;
          v = strip (dropWhile is_op_char t)
      in release_text v
         \<and> (opr \<in> set [''=='', ''!='', ''<='', ''>='', ''<'', ''>'']
              \<or> (opr = ''~='' \<and> CHR ''.'' \<in> set v)))"

definition version_clauses :: "string \<Rightarrow> bool" where
  "version_clauses t \<longleftrightarrow>
     (let inner = (if startswith t ''('' \<and> endswith t '')''
                   then take (length t - 2) (drop 1 t) else t)
      in list_all version_clause (split_sep CHR '','' inner))"

text \<open>
  \<^verbatim>\<open>packaging.requirements.Requirement(text)\<close>: the name, the extras as a set
  (made by adding the written extras one by one, with the \<open>add\<close> of the runtime),
  the marker after the semicolon.
\<close>

definition parse_requirement ::
  "(string \<Rightarrow> pyset \<Rightarrow> pyset) \<Rightarrow> string \<Rightarrow> exn + marker requirement" where
  "parse_requirement add text =
     (let head = strip (takeWhile (\<lambda>c. c \<noteq> CHR '';'') text);
          tail = dropWhile (\<lambda>c. c \<noteq> CHR '';'') text;
          n = takeWhile is_name_char head
      in if \<not> is_identifier n then Inl (InvalidRequirement text)
         else
           (case parse_extras (dropWhile is_space (dropWhile is_name_char head)) of
              None \<Rightarrow> Inl (InvalidRequirement text)
            | Some (extras_list, after) \<Rightarrow>
                if strip after \<noteq> [] \<and> \<not> version_clauses (strip after)
                then Inl (NotModelled text)
                else
                  (case tail of
                     [] \<Rightarrow>
                       Inr \<lparr>req_name = n, req_extras = foldl (\<lambda>s x. add x s) [] extras_list,
                            req_marker = None\<rparr>
                   | _ # marker_text \<Rightarrow>
                       (case parse_marker marker_text of
                          Inl e \<Rightarrow> Inl e
                        | Inr m \<Rightarrow>
                            Inr \<lparr>req_name = n,
                                 req_extras = foldl (\<lambda>s x. add x s) [] extras_list,
                                 req_marker = Some m\<rparr>))))"

text \<open>
  The library on a given platform and runtime: the default environment of the
  interpreter and the insertion into its sets are the two arguments.
\<close>

definition packaging :: "environment \<Rightarrow> (string \<Rightarrow> pyset \<Rightarrow> pyset) \<Rightarrow> marker pylib" where
  "packaging env add =
     \<lparr>default_environment = env, Requirement = parse_requirement add,
      evaluate = marker_evaluate, set_add = add\<rparr>"

text \<open>The default environment of CPython 3.8 on Linux.\<close>

definition linux_cpython38 :: environment where
  "linux_cpython38 =
     map_of
       [(''implementation_name'', PyStr ''cpython''),
        (''implementation_version'', PyStr ''3.8.10''),
        (''os_name'', PyStr ''posix''),
        (''platform_machine'', PyStr ''x86_64''),
        (''platform_release'', PyStr ''5.4.0''),
        (''platform_system'', PyStr ''Linux''),
        (''platform_version'', PyStr ''#1 SMP''),
        (''python_full_version'', PyStr ''3.8.10''),
        (''platform_python_implementation'', PyStr ''CPython''),
        (''python_version'', PyStr ''3.8''),
        (''sys_platform'', PyStr ''linux'')]"

text \<open>
  Three runtimes: sets that yield their elements in ascending order, sets that
  yield them in descending order, and sets that yield them in the order in which
  they were added.
\<close>

definition ascending :: "string \<Rightarrow> pyset \<Rightarrow> pyset" where
  "ascending x s = (if x \<in> set s then s else insort x s)"

definition descending :: "string \<Rightarrow> pyset \<Rightarrow> pyset" where
  "descending x s = (if x \<in> set s then s else rev (insort x (rev s)))"

definition by_insertion :: "string \<Rightarrow> pyset \<Rightarrow> pyset" where
  "by_insertion x s = (if x \<in> set s then s else s @ [x])"

subsection \<open>Sample archives\<close>

text \<open>
  A system that holds one wheel, \<^verbatim>\<open>sample_pkg-1.2.3-py3-none-any.whl\<close>, whose
  METADATA entry has the given bytes; and the METADATA of the end-to-end scenario.
\<close>

definition lines_text :: "string list \<Rightarrow> string" where
  "lines_text ls = concat (map (\<lambda>l. l @ [CHR 0x0A]) ls)"

definition wheel_os :: "string \<Rightarrow> os_state" where
  "wheel_os metadata_bytes =
     \<lparr>disk = [''/wheels/sample_pkg-1.2.3-py3-none-any.whl'' \<mapsto>
                Archive [\<lparr>filename = ''sample_pkg/__init__.py'', external_attr = 0x81A40000,
                          data = []\<rparr>,
                         \<lparr>filename = ''sample_pkg-1.2.3.dist-info/METADATA'',
                          external_attr = 0x81A40000, data = metadata_bytes\<rparr>]],
      modes = Map.empty, umask = 18, calls = []\<rparr>"

definition sample_wheel :: wheel where
  "sample_wheel = Wheel ''/wheels/sample_pkg-1.2.3-py3-none-any.whl''"

definition sample_METADATA :: string where
  "sample_METADATA =
     lines_text
       [''Metadata-Version: 2.1'',
        ''Name: sample-pkg'',
        ''Requires-Dist: six'',
        ''Requires-Dist: mock; extra == \"test\"'',
        ''Provides-Extra: test'',
        [],
        ''A sample package.'']"

definition sample_os :: os_state where
  "sample_os = wheel_os sample_METADATA"

section \<open>Properties\<close>

subsection \<open>Splitting\<close>

lemma split_sep_nonempty: "split_sep sep s \<noteq> []"
  by (induction s) (auto split: list.splits)

lemma split_sep_no_sep: "sep \<notin> set s \<Longrightarrow> split_sep sep s = [s]"
  by (induction s) auto

lemma split_sep_append:
  "sep \<notin> set s \<Longrightarrow> split_sep sep (s @ sep # t) = s # split_sep sep t"
  by (induction s) auto

lemma split_sep_length: "length (split_sep sep s) = Suc (count_list s sep)"
  by (induction s) (auto split: list.splits)

lemma count_list_0_iff: "count_list s x = 0 \<longleftrightarrow> x \<notin> set s"
  by (induction s) auto

lemma split_sep_hd_no_sep: "sep \<notin> set (hd (split_sep sep s))"
  by (induction s) (auto split: list.splits)

subsection \<open>Identity accessors\<close>

lemma distribution_total: "distribution w = Inr (hd (split_sep CHR ''-'' (basename w)))"
proof -
  obtain p ps where "split_sep CHR ''-'' (basename w) = p # ps"
    using split_sep_nonempty [of "CHR ''-''" "basename w"] by (cases "split_sep CHR ''-'' (basename w)") auto
  then show ?thesis by (simp add: distribution_def py_index_def)
qed

lemma version_returns_iff:
  "(\<exists>v. version w = Inr v) \<longleftrightarrow> CHR ''-'' \<in> set (basename w)"
proof -
  have "(0 < count_list (basename w) CHR ''-'') = (CHR ''-'' \<in> set (basename w))"
    using count_list_0_iff [of "basename w" "CHR ''-''"] by auto
  then show ?thesis
    by (auto simp: version_def py_index_def split_sep_length)
qed

lemma version_raises:
  "CHR ''-'' \<notin> set (basename w) \<Longrightarrow> version w = Inl IndexError"
  by (simp add: version_def py_index_def split_sep_no_sep)

text \<open>
  C6. When the base filename is \<open>D-V-py3-none-any.whl\<close> and neither \<open>D\<close> nor \<open>V\<close>
  contains a hyphen, \<open>distribution\<close> returns \<open>D\<close> and \<open>version\<close> returns \<open>V\<close>. Both
  are functions of the descriptor's path alone: they take no file system.
\<close>

theorem distribution_version_of_filename:
  assumes "basename w = D @ ''-'' @ V @ ''-py3-none-any.whl''"
    and "CHR ''-'' \<notin> set D" and "CHR ''-'' \<notin> set V"
  shows "distribution w = Inr D \<and> version w = Inr V"
proof -
  have "split_sep CHR ''-'' (basename w) =
          D # V # split_sep CHR ''-'' ''py3-none-any.whl''"
    using assms by (simp add: split_sep_append)
  then show ?thesis by (simp add: distribution_def version_def py_index_def)
qed

theorem distribution_version_of_filename_witness:
  "basename (Wheel ''/tmp/whl/sample_pkg-1.2.3-py3-none-any.whl'')
     = ''sample_pkg'' @ ''-'' @ ''1.2.3'' @ ''-py3-none-any.whl''
   \<and> CHR ''-'' \<notin> set ''sample_pkg'' \<and> CHR ''-'' \<notin> set ''1.2.3''
   \<and> distribution (Wheel ''/tmp/whl/sample_pkg-1.2.3-py3-none-any.whl'') = Inr ''sample_pkg''
   \<and> version (Wheel ''/tmp/whl/sample_pkg-1.2.3-py3-none-any.whl'') = Inr ''1.2.3''"
proof -
  have b: "basename (Wheel ''/tmp/whl/sample_pkg-1.2.3-py3-none-any.whl'')
             = ''sample_pkg'' @ ''-'' @ ''1.2.3'' @ ''-py3-none-any.whl''"
    by (simp add: basename_def basename_of_def Wheel_def)
  have d: "CHR ''-'' \<notin> set ''sample_pkg''" and v: "CHR ''-'' \<notin> set ''1.2.3''"
    by simp_all
  from distribution_version_of_filename [OF b d v] b d v show ?thesis
    by blast
qed

text \<open>
  C8, as the code has it. \<open>distribution\<close> never raises, whatever the filename.
  \<open>version\<close> returns exactly when the base filename contains a hyphen, and then
  returns the second hyphen-delimited segment whatever it is; on a base filename
  with no hyphen it raises IndexError.
\<close>

theorem identity_accessors_on_short_filenames:
  "(\<exists>d. distribution w = Inr d)
   \<and> (CHR ''-'' \<in> set (basename w) \<longrightarrow>
        (\<exists>v. version w = Inr v \<and> v = split_sep CHR ''-'' (basename w) ! 1))
   \<and> (CHR ''-'' \<notin> set (basename w) \<longrightarrow> version w = Inl IndexError)"
proof -
  have "\<exists>d. distribution w = Inr d"
    by (simp add: distribution_total)
  moreover have "\<exists>v. version w = Inr v \<and> v = split_sep CHR ''-'' (basename w) ! 1"
    if "CHR ''-'' \<in> set (basename w)"
    using that version_returns_iff [of w]
    by (auto simp: version_def py_index_def split: if_splits)
  moreover have "version w = Inl IndexError" if "CHR ''-'' \<notin> set (basename w)"
    using that by (rule version_raises)
  ultimately show ?thesis by blast
qed

theorem identity_accessors_on_short_filenames_witness:
  "CHR ''-'' \<in> set (basename (Wheel ''dir/foo-bar.whl''))
   \<and> distribution (Wheel ''dir/foo-bar.whl'') = Inr ''foo''
   \<and> version (Wheel ''dir/foo-bar.whl'') = Inr ''bar.whl''
   \<and> CHR ''-'' \<notin> set (basename (Wheel ''dir/foo.whl''))
   \<and> distribution (Wheel ''dir/foo.whl'') = Inr ''foo.whl''
   \<and> version (Wheel ''dir/foo.whl'') = Inl IndexError"
proof -
  have b1: "basename (Wheel ''dir/foo-bar.whl'') = ''foo-bar.whl''"
    and b2: "basename (Wheel ''dir/foo.whl'') = ''foo.whl''"
    by (simp_all add: basename_def basename_of_def Wheel_def)
  have h1: "CHR ''-'' \<in> set (basename (Wheel ''dir/foo-bar.whl''))"
    and h2: "CHR ''-'' \<notin> set (basename (Wheel ''dir/foo.whl''))"
    by (simp_all add: b1 b2)
  have "version (Wheel ''dir/foo-bar.whl'') = Inr ''bar.whl''"
    using identity_accessors_on_short_filenames [of "Wheel ''dir/foo-bar.whl''"] h1
    by (simp add: b1)
  moreover have "version (Wheel ''dir/foo.whl'') = Inl IndexError"
    using identity_accessors_on_short_filenames [of "Wheel ''dir/foo.whl''"] h2
    by blast
  moreover have "distribution (Wheel ''dir/foo-bar.whl'') = Inr ''foo''"
    and "distribution (Wheel ''dir/foo.whl'') = Inr ''foo.whl''"
    by (simp_all add: distribution_def py_index_def b1 b2)
  ultimately show ?thesis using h1 h2 by blast
qed

text \<open>
  The claim as the specification words it (neither accessor ever raises on a
  filename with too few segments) fails on a filename with no hyphen.
\<close>

theorem version_no_hyphen_counterexample:
  "\<not> (\<exists>v. version (Wheel ''dir/foo.whl'') = Inr v)"
  by (simp add: version_def py_index_def basename_def basename_of_def Wheel_def)

text \<open>
  C10. Whenever the two accessors return \<open>d\<close> and \<open>v\<close>, \<open>repository_suffix\<close> returns
  \<open>pypi__d_v\<close> with every hyphen, dot and plus sign replaced by an underscore, and the
  result contains none of the three characters.
\<close>

theorem repository_suffix_escaped:
  assumes "distribution w = Inr d" and "version w = Inr v"
  shows "\<exists>s. repository_suffix w = Inr s
           \<and> s = map (\<lambda>c. if c = CHR ''-'' \<or> c = CHR ''.'' \<or> c = CHR ''+'' then CHR ''_'' else c)
                   (''pypi__'' @ d @ ''_'' @ v)
           \<and> CHR ''-'' \<notin> set s \<and> CHR ''.'' \<notin> set s \<and> CHR ''+'' \<notin> set s"
proof -
  let ?esc = "\<lambda>c. if c = CHR ''-'' \<or> c = CHR ''.'' \<or> c = CHR ''+'' then CHR ''_'' else c"
  have sub: "re_sub_class ''-.+'' ''_'' t = map ?esc t" for t
    by (induction t) (auto simp: re_sub_class_def)
  have clean: "CHR ''-'' \<notin> set (map ?esc t) \<and> CHR ''.'' \<notin> set (map ?esc t)
                 \<and> CHR ''+'' \<notin> set (map ?esc t)" for t
    by (induction t) auto
  have "repository_suffix w = Inr (map ?esc (''pypi__'' @ d @ ''_'' @ v))"
    using assms by (simp add: repository_suffix_def sub)
  with clean [of "''pypi__'' @ d @ ''_'' @ v"] show ?thesis by blast
qed

theorem repository_suffix_escaped_witness:
  "distribution (Wheel ''google_cloud-0.27.0+b1-py2.py3-none-any.whl'') = Inr ''google_cloud''
   \<and> version (Wheel ''google_cloud-0.27.0+b1-py2.py3-none-any.whl'') = Inr ''0.27.0+b1''
   \<and> repository_suffix (Wheel ''google_cloud-0.27.0+b1-py2.py3-none-any.whl'')
       = Inr ''pypi__google_cloud_0_27_0_b1''"
proof -
  let ?w = "Wheel ''google_cloud-0.27.0+b1-py2.py3-none-any.whl''"
  have d: "distribution ?w = Inr ''google_cloud''" and v: "version ?w = Inr ''0.27.0+b1''"
    by (simp_all add: distribution_def version_def py_index_def basename_def
          basename_of_def Wheel_def)
  from repository_suffix_escaped [OF d v] d v show ?thesis
    by simp
qed

subsection \<open>Extraction\<close>

lemma current_umask_eq: "current_umask s = (umask s, s)"
  by (simp add: current_umask_def os_umask_def)

lemma S_ISREG_nonzero: "S_ISREG m \<Longrightarrow> m \<noteq> 0"
  by (auto simp: S_ISREG_def)

lemma expand_entry_marker:
  "endswith (filename info) ''/'' \<or> endswith (filename info) [CHR 0x5C]
     \<Longrightarrow> expand_entry directory info s = Inr s"
  by (simp add: expand_entry_def)

lemma expand_entry_exec:
  assumes "\<not> endswith (filename info) ''/''" "\<not> endswith (filename info) [CHR 0x5C]"
    and "S_ISREG (drop_bit 16 (external_attr info))"
    and "drop_bit 16 (external_attr info) AND 73 \<noteq> 0"
  shows "expand_entry directory info s =
           os_chmod (os_path_join directory (filename info)) ((511 AND NOT (umask s)) OR 73) s"
  using assms S_ISREG_nonzero [OF assms(3)]
  by (simp add: expand_entry_def set_extracted_file_to_default_mode_plus_executable_def
      current_umask_eq)

lemma os_chmod_Inr:
  "os_chmod p m s = Inr s' \<Longrightarrow>
     umask s' = umask s \<and> calls s' = calls s @ [Chmod p m]
     \<and> modes s' = (modes s)(normpath p \<mapsto> m) \<and> disk s' = disk s"
  by (auto simp: os_chmod_def Let_def split: if_splits)

lemma expand_entry_other:
  assumes "\<not> (S_ISREG (drop_bit 16 (external_attr info))
              \<and> drop_bit 16 (external_attr info) AND 73 \<noteq> 0)"
  shows "expand_entry directory info s = Inr s"
  using assms by (auto simp: expand_entry_def Let_def)

lemma expand_entry_calls:
  assumes "expand_entry directory info s = Inr s1"
  shows "umask s1 = umask s
     \<and> calls s1 = calls s @
          (if \<not> endswith (filename info) ''/'' \<and> \<not> endswith (filename info) [CHR 0x5C]
              \<and> S_ISREG (drop_bit 16 (external_attr info))
              \<and> drop_bit 16 (external_attr info) AND 73 \<noteq> 0
           then [Chmod (os_path_join directory (filename info)) ((511 AND NOT (umask s)) OR 73)]
           else [])"
proof (cases "endswith (filename info) ''/'' \<or> endswith (filename info) [CHR 0x5C]")
  case True
  with assms expand_entry_marker [OF True, of directory s] show ?thesis by auto
next
  case nm: False
  show ?thesis
  proof (cases "S_ISREG (drop_bit 16 (external_attr info))
                  \<and> drop_bit 16 (external_attr info) AND 73 \<noteq> 0")
    case True
    with nm have "os_chmod (os_path_join directory (filename info))
                    ((511 AND NOT (umask s)) OR 73) s = Inr s1"
      using assms expand_entry_exec [of info directory s] by simp
    from os_chmod_Inr [OF this] nm True show ?thesis by simp
  next
    case False
    with assms expand_entry_other [OF False, of directory s] show ?thesis by auto
  qed
qed

text \<open>
  The chmod calls of the loop, when it returns: one for each entry whose name does
  not end in a slash or a backslash and whose stored mode is that of a regular
  file with an execute bit, on the joined path, with the mode
  \<open>(0o777 AND NOT umask) OR 0o111\<close>; none for any other entry.
\<close>

lemma expand_loop_calls:
  "expand_loop directory infos s = Inr s' \<Longrightarrow>
     umask s' = umask s
     \<and> calls s' = calls s @
          map (\<lambda>i. Chmod (os_path_join directory (filename i)) ((511 AND NOT (umask s)) OR 73))
            (filter (\<lambda>i. \<not> endswith (filename i) ''/'' \<and> \<not> endswith (filename i) [CHR 0x5C]
                        \<and> S_ISREG (drop_bit 16 (external_attr i))
                        \<and> drop_bit 16 (external_attr i) AND 73 \<noteq> 0) infos)"
proof (induction infos arbitrary: s)
  case Nil
  then show ?case by simp
next
  case (Cons info infos)
  from Cons.prems obtain s1 where
    e: "expand_entry directory info s = Inr s1" and l: "expand_loop directory infos s1 = Inr s'"
    by (auto split: sum.splits)
  note E = expand_entry_calls [OF e]
  note L = Cons.IH [OF l]
  have um: "umask s1 = umask s" using E by simp
  show ?case
    using E L unfolding um
    by (auto split: if_splits)
qed

text \<open>
  C9 on an archive with a member named \<^verbatim>\<open>/opt/tool/run.sh\<close>, a regular file with
  mode 0o755, next to a member \<^verbatim>\<open>pkg/run.sh\<close> of the same mode; the destination is
  \<^verbatim>\<open>out\<close> and the umask 0o022. The extraction writes the first member to
  \<^verbatim>\<open>out/opt/tool/run.sh\<close>, but the path that the loop hands to chmod is
  \<^verbatim>\<open>/opt/tool/run.sh\<close>. Where no such file exists, \<open>expand\<close> raises
  FileNotFoundError. Where one exists, it is that file, outside the destination,
  that gets mode 0o755 (493), and the extracted file keeps mode 0o644 (420); the
  extracted \<^verbatim>\<open>out/pkg/run.sh\<close> gets 0o755 as intended, and the directory marker
  of the archive causes no chmod call.
\<close>

theorem expand_absolute_member_name:
  "extract_target ''out'' ''/opt/tool/run.sh'' = ''out/opt/tool/run.sh''
   \<and> os_path_join ''out'' ''/opt/tool/run.sh'' = ''/opt/tool/run.sh''
   \<and> expand (Wheel ''w.whl'') ''out''
         \<lparr>disk = [''w.whl'' \<mapsto> Archive
                    [\<lparr>filename = ''/opt/tool/run.sh'', external_attr = 0x81ED0000, data = []\<rparr>]],
          modes = Map.empty, umask = 18, calls = []\<rparr>
       = Inl (FileNotFoundError ''/opt/tool/run.sh'')
   \<and> (\<exists>s'. expand (Wheel ''w.whl'') ''out''
               \<lparr>disk = [''w.whl'' \<mapsto> Archive
                  [\<lparr>filename = ''pkg/'', external_attr = 0x41ED0010, data = []\<rparr>,
                   \<lparr>filename = ''/opt/tool/run.sh'', external_attr = 0x81ED0000, data = []\<rparr>,
                   \<lparr>filename = ''pkg/run.sh'', external_attr = 0x81ED0000, data = []\<rparr>]],
                modes = [''/opt/tool/run.sh'' \<mapsto> 420], umask = 18, calls = []\<rparr> = Inr s'
          \<and> modes s' ''out/opt/tool/run.sh'' = Some 420
          \<and> modes s' ''/opt/tool/run.sh'' = Some 493
          \<and> modes s' ''out/pkg/run.sh'' = Some 493
          \<and> calls s' = [OpenArchive ''w.whl'', Chmod ''/opt/tool/run.sh'' 493,
                         Chmod ''out/pkg/run.sh'' 493])"
proof -
  have 1: "extract_target ''out'' ''/opt/tool/run.sh'' = ''out/opt/tool/run.sh''"
    and 2: "os_path_join ''out'' ''/opt/tool/run.sh'' = ''/opt/tool/run.sh''"
    by code_simp+
  have "case expand (Wheel ''w.whl'') ''out''
         \<lparr>disk = [''w.whl'' \<mapsto> Archive
                    [\<lparr>filename = ''/opt/tool/run.sh'', external_attr = 0x81ED0000, data = []\<rparr>]],
          modes = Map.empty, umask = 18, calls = []\<rparr> of
          Inl e \<Rightarrow> e = FileNotFoundError ''/opt/tool/run.sh''
        | Inr s' \<Rightarrow> False"
    by code_simp
  then have 3: "expand (Wheel ''w.whl'') ''out''
         \<lparr>disk = [''w.whl'' \<mapsto> Archive
                    [\<lparr>filename = ''/opt/tool/run.sh'', external_attr = 0x81ED0000, data = []\<rparr>]],
          modes = Map.empty, umask = 18, calls = []\<rparr>
       = Inl (FileNotFoundError ''/opt/tool/run.sh'')"
    by (auto split: sum.splits)
  have "case expand (Wheel ''w.whl'') ''out''
               \<lparr>disk = [''w.whl'' \<mapsto> Archive
                  [\<lparr>filename = ''pkg/'', external_attr = 0x41ED0010, data = []\<rparr>,
                   \<lparr>filename = ''/opt/tool/run.sh'', external_attr = 0x81ED0000, data = []\<rparr>,
                   \<lparr>filename = ''pkg/run.sh'', external_attr = 0x81ED0000, data = []\<rparr>]],
                modes = [''/opt/tool/run.sh'' \<mapsto> 420], umask = 18, calls = []\<rparr> of
          Inl e \<Rightarrow> False
        | Inr s' \<Rightarrow>
            modes s' ''out/opt/tool/run.sh'' = Some 420
            \<and> modes s' ''/opt/tool/run.sh'' = Some 493
            \<and> modes s' ''out/pkg/run.sh'' = Some 493
            \<and> calls s' = [OpenArchive ''w.whl'', Chmod ''/opt/tool/run.sh'' 493,
                           Chmod ''out/pkg/run.sh'' 493]"
    by code_simp
  then have 4: "\<exists>s'. expand (Wheel ''w.whl'') ''out''
               \<lparr>disk = [''w.whl'' \<mapsto> Archive
                  [\<lparr>filename = ''pkg/'', external_attr = 0x41ED0010, data = []\<rparr>,
                   \<lparr>filename = ''/opt/tool/run.sh'', external_attr = 0x81ED0000, data = []\<rparr>,
                   \<lparr>filename = ''pkg/run.sh'', external_attr = 0x81ED0000, data = []\<rparr>]],
                modes = [''/opt/tool/run.sh'' \<mapsto> 420], umask = 18, calls = []\<rparr> = Inr s'
          \<and> modes s' ''out/opt/tool/run.sh'' = Some 420
          \<and> modes s' ''/opt/tool/run.sh'' = Some 493
          \<and> modes s' ''out/pkg/run.sh'' = Some 493
          \<and> calls s' = [OpenArchive ''w.whl'', Chmod ''/opt/tool/run.sh'' 493,
                         Chmod ''out/pkg/run.sh'' 493]"
    by (auto split: sum.splits)
  from 1 2 3 4 show ?thesis by blast
qed

subsection \<open>The metadata cache\<close>

text \<open>
  C7. Once \<open>metadata\<close> has returned a value \<open>m\<close>, the descriptor it leaves holds
  \<open>m\<close> in its cache, and every later call on that descriptor, in any state of the
  file system, returns the same \<open>m\<close> and leaves descriptor and state as they are:
  no archive is opened (the log of calls does not grow) and the cache is not
  replaced, whatever has happened to the file.
\<close>

theorem metadata_memoized:
  assumes "metadata w s = (Inr m, w1, s1)"
  shows "wmetadata w1 = Some m \<and> (\<forall>t. metadata w1 t = (Inr m, w1, t))"
proof -
  have c: "wmetadata w1 = Some m"
  proof (cases "wmetadata w")
    case (Some m0)
    with assms show ?thesis by (simp add: metadata_def)
  next
    case None
    with assms show ?thesis
      by (auto simp: metadata_def Let_def split: prod.splits sum.splits)
  qed
  then have "metadata w1 t = (Inr m, w1, t)" for t
    by (simp add: metadata_def)
  with c show ?thesis by blast
qed

theorem metadata_memoized_witness:
  "\<exists>m w1 s1. metadata sample_wheel sample_os = (Inr m, w1, s1)
      \<and> msg_get_all m ''Requires-Dist'' = [''six'', ''mock; extra == \"test\"'']
      \<and> metadata w1 (s1\<lparr>disk := Map.empty\<rparr>) = (Inr m, w1, s1\<lparr>disk := Map.empty\<rparr>)"
proof -
  have f: "fst (metadata sample_wheel sample_os) =
             Inr [(''Metadata-Version'', ''2.1''), (''Name'', ''sample-pkg''),
                  (''Requires-Dist'', ''six''),
                  (''Requires-Dist'', ''mock; extra == \"test\"''),
                  (''Provides-Extra'', ''test'')]"
    by code_simp
  obtain r w1 s1 where h0: "metadata sample_wheel sample_os = (r, w1, s1)"
    using prod_cases3 by blast
  with f have h: "metadata sample_wheel sample_os =
             (Inr [(''Metadata-Version'', ''2.1''), (''Name'', ''sample-pkg''),
                  (''Requires-Dist'', ''six''),
                  (''Requires-Dist'', ''mock; extra == \"test\"''),
                  (''Provides-Extra'', ''test'')], w1, s1)"
    by simp
  have g: "msg_get_all [(''Metadata-Version'', ''2.1''), (''Name'', ''sample-pkg''),
                  (''Requires-Dist'', ''six''),
                  (''Requires-Dist'', ''mock; extra == \"test\"''),
                  (''Provides-Extra'', ''test'')] ''Requires-Dist''
           = [''six'', ''mock; extra == \"test\"'']"
    by code_simp
  from metadata_memoized [OF h] h g show ?thesis by blast
qed

subsection \<open>Dependencies\<close>

lemma set_add_set:
  "set_semantics L \<Longrightarrow> distinct s \<Longrightarrow> set (set_add L x s) = insert x (set s)"
  by (simp add: set_semantics_def)

lemma set_add_distinct:
  "set_semantics L \<Longrightarrow> distinct s \<Longrightarrow> distinct (set_add L x s)"
  by (simp add: set_semantics_def)

lemma dependency_loop_Inr:
  assumes "set_semantics L"
  shows "dependency_loop L env rs acc = Inr S \<Longrightarrow> distinct acc \<Longrightarrow>
     distinct S \<and>
     set S = set acc \<union> {specifier pr | r pr. r \<in> set rs \<and> Requirement L r = Inr pr \<and> kept L env pr}"
proof (induction rs arbitrary: acc)
  case Nil
  then show ?case by simp
next
  case (Cons r rs)
  from Cons.prems obtain pr where p: "Requirement L r = Inr pr"
    by (auto split: sum.splits)
  show ?case
  proof (cases "kept L env pr")
    case True
    with Cons.prems p
    have l: "dependency_loop L env rs (set_add L (specifier pr) acc) = Inr S"
      by (auto simp: kept_def split: option.splits sum.splits if_splits)
    have d: "distinct (set_add L (specifier pr) acc)"
      using assms Cons.prems(2) by (rule set_add_distinct)
    from Cons.IH [OF l d] set_add_set [OF assms Cons.prems(2), of "specifier pr"] True p
    show ?thesis by auto
  next
    case False
    with Cons.prems p have l: "dependency_loop L env rs acc = Inr S"
      by (auto simp: kept_def split: option.splits sum.splits if_splits)
    from Cons.IH [OF l Cons.prems(2)] False p show ?thesis by auto
  qed
qed

lemma dependency_loop_returns:
  "(\<exists>S. dependency_loop L env rs acc = Inr S) \<longleftrightarrow>
     (\<forall>r \<in> set rs. \<exists>pr. Requirement L r = Inr pr
         \<and> (\<forall>m. req_marker pr = Some m \<longrightarrow> (\<exists>b. evaluate L m env = Inr b)))"
proof (induction rs arbitrary: acc)
  case Nil
  then show ?case by simp
next
  case (Cons r rs)
  show ?case
  proof (cases "Requirement L r")
    case (Inl e)
    then show ?thesis by auto
  next
    case (Inr pr)
    show ?thesis
    proof (cases "req_marker pr")
      case None
      with Inr Cons.IH [of "set_add L (specifier pr) acc"] show ?thesis by simp
    next
      case (Some m)
      show ?thesis
      proof (cases "evaluate L m env")
        case (Inl e)
        with Inr Some show ?thesis by auto
      next
        case b: (Inr b)
        with Inr Some Cons.IH [of "set_add L (specifier pr) acc"] Cons.IH [of acc]
        show ?thesis by (cases b) auto
      qed
    qed
  qed
qed

lemma sort_enumeration:
  fixes ys :: "string list"
  assumes "distinct ys"
  shows "sort ys = sorted_list_of_set (set ys)"
  using assms by (metis sorted_list_of_set_sort_remdups distinct_remdups_id)

lemma dependencies_Inr:
  assumes "dependencies L w extra s = (Inr out, w1, s1)"
  shows "\<exists>m S. metadata w s = (Inr m, w1, s1)
           \<and> dependency_loop L (target_environment L extra) (msg_get_all m ''Requires-Dist'') []
               = Inr S
           \<and> out = sort S"
  using assms by (auto simp: dependencies_def Let_def split: prod.splits sum.splits)

lemma dependencies_of_metadata:
  assumes "metadata w s = (Inr m, w1, s1)"
  shows "dependencies L w extra s =
           (case dependency_loop L (target_environment L extra)
                   (msg_get_all m ''Requires-Dist'') [] of
              Inl e \<Rightarrow> (Inl e, w1, s1)
            | Inr S \<Rightarrow> (Inr (sort S), w1, s1))"
  using assms by (simp add: dependencies_def Let_def)

lemma dependencies_set:
  assumes "set_semantics L" and "metadata w s = (Inr m, w1, s1)"
    and "dependencies L w extra s = (Inr out, w1, s1)"
  shows "set out = {specifier pr | r pr. r \<in> set (msg_get_all m ''Requires-Dist'')
                      \<and> Requirement L r = Inr pr \<and> kept L (target_environment L extra) pr}"
proof -
  from dependencies_Inr [OF assms(3)] assms(2) obtain S where
    l: "dependency_loop L (target_environment L extra) (msg_get_all m ''Requires-Dist'') []
          = Inr S"
    and o: "out = sort S"
    by auto
  from dependency_loop_Inr [OF assms(1) l] o show ?thesis by simp
qed

text \<open>
  The output is a function of the set of kept specifiers: two runs whose kept
  specifiers are the same strings return the same sequence.
\<close>

lemma dependencies_determined:
  assumes "set_semantics L" and "set_semantics L'"
    and l: "dependency_loop L env rs [] = Inr S"
    and r: "\<exists>S'. dependency_loop L' env' rs' [] = Inr S'"
    and e: "{specifier pr | r pr. r \<in> set rs' \<and> Requirement L' r = Inr pr \<and> kept L' env' pr}
            = {specifier pr | r pr. r \<in> set rs \<and> Requirement L r = Inr pr \<and> kept L env pr}"
  shows "\<exists>S'. dependency_loop L' env' rs' [] = Inr S' \<and> sort S' = sort S"
proof -
  from r obtain S' where l': "dependency_loop L' env' rs' [] = Inr S'" ..
  from dependency_loop_Inr [OF assms(1) l] dependency_loop_Inr [OF assms(2) l'] e
  have "distinct S" "distinct S'" "set S' = set S" by simp_all
  then have "sort S' = sort S"
    by (simp add: sort_enumeration)
  with l' show ?thesis by blast
qed

lemma metadata_cache_filled:
  "metadata w s = (Inr m, w1, s1) \<Longrightarrow> wmetadata w1 = Some m"
  by (cases "wmetadata w")
     (auto simp: metadata_def Let_def split: prod.splits sum.splits)

lemma metadata_cache_hit:
  "wmetadata w = Some m \<Longrightarrow> metadata w t = (Inr m, w, t)"
  by (simp add: metadata_def)

lemma set_semantics_ascending: "set_semantics (packaging env ascending)"
  by (auto simp: set_semantics_def packaging_def ascending_def set_insort_key distinct_insort)

lemma set_semantics_descending: "set_semantics (packaging env descending)"
  by (auto simp: set_semantics_def packaging_def descending_def set_insort_key distinct_insort)

lemma set_semantics_by_insertion: "set_semantics (packaging env by_insertion)"
  by (auto simp: set_semantics_def packaging_def by_insertion_def)

text \<open>
  C2, as the code has it. Let adding to a set keep every element once. Whenever
  \<open>dependencies\<close> returns a sequence, that sequence is strictly ascending in the
  lexicographic order of strings, hence without duplicates; it is the sorted form
  of every enumeration of the dependency set, so the order in which that set
  yields its elements does not matter; a descriptor whose METADATA holds the same
  Requires-Dist values in another order gets the same sequence; and a second call
  on the descriptor and state that the first call left returns it again. Under
  another runtime, whose sets yield their elements in another order, the sequence
  is the same provided that each kept requirement has its extras yielded in the
  same order there, as is the case when it has at most one extra: the order of
  the extras inside one specifier is the order of the set.
\<close>

theorem dependencies_sorted_deterministic:
  assumes "set_semantics L"
    and "metadata w s = (Inr m, w1, s1)"
    and "dependencies L w extra s = (Inr out, w1, s1)"
  shows "sorted_wrt (<) out \<and> distinct out
     \<and> (\<forall>S ys. dependency_loop L (target_environment L extra)
                   (msg_get_all m ''Requires-Dist'') [] = Inr S
                 \<and> set ys = set S \<and> distinct ys \<longrightarrow> sort ys = out)
     \<and> (\<forall>w' s' m' w2 s2.
           metadata w' s' = (Inr m', w2, s2)
           \<and> set (msg_get_all m' ''Requires-Dist'') = set (msg_get_all m ''Requires-Dist'')
           \<longrightarrow> dependencies L w' extra s' = (Inr out, w2, s2))
     \<and> dependencies L w1 extra s1 = (Inr out, w1, s1)
     \<and> (\<forall>L'. set_semantics L'
            \<and> default_environment L' = default_environment L
            \<and> evaluate L' = evaluate L
            \<and> (\<forall>r \<in> set (msg_get_all m ''Requires-Dist''). \<forall>pr.
                  Requirement L r = Inr pr \<longrightarrow>
                  (\<exists>pr'. Requirement L' r = Inr pr'
                      \<and> req_name pr' = req_name pr \<and> req_marker pr' = req_marker pr
                      \<and> (kept L (target_environment L extra) pr \<longrightarrow>
                            req_extras pr' = req_extras pr
                            \<or> (set (req_extras pr') = set (req_extras pr)
                                \<and> distinct (req_extras pr') \<and> distinct (req_extras pr)
                                \<and> length (req_extras pr) \<le> 1))))
            \<longrightarrow> dependencies L' w extra s = (Inr out, w1, s1))"
proof -
  let ?env = "target_environment L extra"
  let ?hs = "msg_get_all m ''Requires-Dist''"
  let ?K = "\<lambda>L env rs. {specifier pr | r pr. r \<in> set rs \<and> Requirement L r = Inr pr \<and> kept L env pr}"
  from dependencies_Inr [OF assms(3)] assms(2) obtain S where
    l: "dependency_loop L ?env ?hs [] = Inr S" and o: "out = sort S"
    by auto
  from dependency_loop_Inr [OF assms(1) l] have dS: "distinct S" and sS: "set S = ?K L ?env ?hs"
    by simp_all
  have 1: "sorted_wrt (<) out" and 2: "distinct out"
    using o dS by (simp_all add: strict_sorted_iff)
  have 3: "sort ys = out"
    if "dependency_loop L ?env ?hs [] = Inr S' \<and> set ys = set S' \<and> distinct ys" for S' ys
  proof -
    from that l have "S' = S" by simp
    with that o dS show ?thesis by (simp add: sort_enumeration)
  qed
  have 4: "dependencies L w' extra s' = (Inr out, w2, s2)"
    if h: "metadata w' s' = (Inr m', w2, s2)
        \<and> set (msg_get_all m' ''Requires-Dist'') = set ?hs" for w' s' m' w2 s2
  proof -
    let ?hs' = "msg_get_all m' ''Requires-Dist''"
    from l have "\<exists>S. dependency_loop L ?env ?hs [] = Inr S" by blast
    then have r: "\<exists>S'. dependency_loop L ?env ?hs' [] = Inr S'"
      unfolding dependency_loop_returns using h by simp
    have e: "?K L ?env ?hs' = ?K L ?env ?hs" using h by simp
    from dependencies_determined [OF assms(1) assms(1) l r e] o h show ?thesis
      by (auto simp: dependencies_of_metadata [of w' s' m' w2 s2])
  qed
  have "metadata w1 s1 = (Inr m, w1, s1)"
    using metadata_cache_hit [OF metadata_cache_filled [OF assms(2)]] .
  with l o have 5: "dependencies L w1 extra s1 = (Inr out, w1, s1)"
    by (simp add: dependencies_of_metadata [of w1 s1 m w1 s1])
  have 6: "dependencies L' w extra s = (Inr out, w1, s1)"
    if h: "set_semantics L'
            \<and> default_environment L' = default_environment L
            \<and> evaluate L' = evaluate L
            \<and> (\<forall>r \<in> set ?hs. \<forall>pr.
                  Requirement L r = Inr pr \<longrightarrow>
                  (\<exists>pr'. Requirement L' r = Inr pr'
                      \<and> req_name pr' = req_name pr \<and> req_marker pr' = req_marker pr
                      \<and> (kept L ?env pr \<longrightarrow>
                            req_extras pr' = req_extras pr
                            \<or> (set (req_extras pr') = set (req_extras pr)
                                \<and> distinct (req_extras pr') \<and> distinct (req_extras pr)
                                \<and> length (req_extras pr) \<le> 1))))" for L'
  proof -
    from h have sem: "set_semantics L'" and ev: "evaluate L' = evaluate L" by simp_all
    from h have env: "target_environment L' extra = ?env"
      by (simp add: target_environment_def)
    have corr: "\<exists>pr'. Requirement L' r = Inr pr' \<and> req_marker pr' = req_marker pr
                  \<and> (kept L ?env pr \<longrightarrow> specifier pr' = specifier pr)"
      if "r \<in> set ?hs" and "Requirement L r = Inr pr" for r pr
    proof -
      from h that obtain pr' where p': "Requirement L' r = Inr pr'"
        "req_name pr' = req_name pr" "req_marker pr' = req_marker pr"
        and x: "kept L ?env pr \<longrightarrow>
                  req_extras pr' = req_extras pr
                  \<or> (set (req_extras pr') = set (req_extras pr)
                      \<and> distinct (req_extras pr') \<and> distinct (req_extras pr)
                      \<and> length (req_extras pr) \<le> 1)"
        by blast
      have "req_extras pr' = req_extras pr" if k: "kept L ?env pr"
      proof -
        from x k consider "req_extras pr' = req_extras pr"
          | "set (req_extras pr') = set (req_extras pr)" "distinct (req_extras pr')"
            "distinct (req_extras pr)" "length (req_extras pr) \<le> 1"
          by blast
        then show ?thesis
        proof cases
          case 1
          then show ?thesis .
        next
          case 2
          then have "length (req_extras pr') = length (req_extras pr)"
            by (metis distinct_card)
          with 2 show ?thesis
            by (cases "req_extras pr"; cases "req_extras pr'") auto
        qed
      qed
      with p' show ?thesis by (auto simp: specifier_def)
    qed
    have keq: "kept L' ?env pr' \<longleftrightarrow> kept L ?env pr" if "req_marker pr' = req_marker pr" for pr pr'
      using that by (simp add: kept_def ev split: option.splits)
    from l have ret: "\<forall>r \<in> set ?hs. \<exists>pr. Requirement L r = Inr pr
         \<and> (\<forall>m. req_marker pr = Some m \<longrightarrow> (\<exists>b. evaluate L m ?env = Inr b))"
      using dependency_loop_returns [of L ?env ?hs "[]"] by blast
    have r: "\<exists>S'. dependency_loop L' ?env ?hs [] = Inr S'"
      unfolding dependency_loop_returns
    proof
      fix r assume rin: "r \<in> set ?hs"
      with ret obtain pr where p: "Requirement L r = Inr pr"
        and b: "\<forall>m. req_marker pr = Some m \<longrightarrow> (\<exists>b. evaluate L m ?env = Inr b)"
        by blast
      from corr [OF rin p] obtain pr' where "Requirement L' r = Inr pr'"
        "req_marker pr' = req_marker pr" by blast
      with b ev show "\<exists>pr. Requirement L' r = Inr pr
         \<and> (\<forall>m. req_marker pr = Some m \<longrightarrow> (\<exists>b. evaluate L' m ?env = Inr b))"
        by auto
    qed
    have e: "?K L' ?env ?hs = ?K L ?env ?hs"
    proof (intro set_eqI iffI)
      fix x assume "x \<in> ?K L' ?env ?hs"
      then obtain r pr' where a: "x = specifier pr'" "r \<in> set ?hs" "Requirement L' r = Inr pr'"
        "kept L' ?env pr'" by blast
      from ret a(2) obtain pr where p: "Requirement L r = Inr pr" by blast
      from corr [OF a(2) p] a(3) have c: "req_marker pr' = req_marker pr"
        "kept L ?env pr \<longrightarrow> specifier pr' = specifier pr" by auto
      from keq [OF c(1)] a(4) have "kept L ?env pr" by simp
      with c a p have "x = specifier pr \<and> r \<in> set ?hs \<and> Requirement L r = Inr pr
          \<and> kept L ?env pr" by simp
      then show "x \<in> ?K L ?env ?hs" by blast
    next
      fix x assume "x \<in> ?K L ?env ?hs"
      then obtain r pr where a: "x = specifier pr" "r \<in> set ?hs" "Requirement L r = Inr pr"
        "kept L ?env pr" by blast
      from corr [OF a(2,3)] obtain pr' where c: "Requirement L' r = Inr pr'"
        "req_marker pr' = req_marker pr" "specifier pr' = specifier pr"
        using a(4) by blast
      from keq [OF c(2)] a(4) have "kept L' ?env pr'" by simp
      with c a have "x = specifier pr' \<and> r \<in> set ?hs \<and> Requirement L' r = Inr pr'
          \<and> kept L' ?env pr'" by simp
      then show "x \<in> ?K L' ?env ?hs" by blast
    qed
    from dependencies_determined [OF assms(1) sem l r e] o env show ?thesis
      by (auto simp: dependencies_of_metadata [OF assms(2)])
  qed
  from 1 2 3 4 5 6 show ?thesis by blast
qed

theorem dependencies_sorted_deterministic_witness:
  "set_semantics (packaging linux_cpython38 ascending)
   \<and> (\<exists>m w1 s1.
         metadata sample_wheel sample_os = (Inr m, w1, s1)
         \<and> dependencies (packaging linux_cpython38 ascending) sample_wheel (Some ''test'')
             sample_os = (Inr [''mock'', ''six''], w1, s1)
         \<and> sorted_wrt (<) [''mock'', ''six'']
         \<and> sort [''six'', ''mock''] = [''mock'', ''six'']
         \<and> dependencies (packaging linux_cpython38 ascending) w1 (Some ''test'') s1
             = (Inr [''mock'', ''six''], w1, s1)
         \<and> dependencies (packaging linux_cpython38 descending) sample_wheel (Some ''test'')
             sample_os = (Inr [''mock'', ''six''], w1, s1))"
proof -
  let ?L = "packaging linux_cpython38 ascending"
  let ?L' = "packaging linux_cpython38 descending"
  let ?r = "''mock; extra == \"test\"''"
  let ?p1 = "\<lparr>req_name = ''six'', req_extras = [], req_marker = None :: marker option\<rparr>"
  let ?p2 = "\<lparr>req_name = ''mock'', req_extras = [],
              req_marker = Some [Cmp (Variable ''extra'') ''=='' (Value ''test'')]\<rparr>"
  let ?M = "[(''Metadata-Version'', ''2.1''), (''Name'', ''sample-pkg''),
             (''Requires-Dist'', ''six''), (''Requires-Dist'', ?r),
             (''Provides-Extra'', ''test'')]"
  have i: "set_semantics ?L" by (rule set_semantics_ascending)
  have i': "set_semantics ?L'" by (rule set_semantics_descending)
  obtain r0 w1 s1 where h0: "metadata sample_wheel sample_os = (r0, w1, s1)"
    using prod_cases3 by blast
  have "fst (metadata sample_wheel sample_os) = Inr ?M"
    by code_simp
  with h0 have m: "metadata sample_wheel sample_os = (Inr ?M, w1, s1)"
    by simp
  have hs: "msg_get_all ?M ''Requires-Dist'' = [''six'', ?r]"
    by code_simp
  have "fst (dependencies ?L sample_wheel (Some ''test'') sample_os) = Inr [''mock'', ''six'']"
    by code_simp
  with m have d: "dependencies ?L sample_wheel (Some ''test'') sample_os
                    = (Inr [''mock'', ''six''], w1, s1)"
    by (auto simp: dependencies_def Let_def split: sum.splits)
  have l: "dependency_loop ?L (target_environment ?L (Some ''test'')) [''six'', ?r] []
             = Inr [''mock'', ''six'']"
    by code_simp
  have c1: "Requirement ?L ''six'' = Inr ?p1" and c1': "Requirement ?L' ''six'' = Inr ?p1"
    and c2: "Requirement ?L ?r = Inr ?p2" and c2': "Requirement ?L' ?r = Inr ?p2"
    by code_simp+
  have ev: "evaluate ?L' = evaluate ?L" "default_environment ?L' = default_environment ?L"
    by (simp_all add: packaging_def)
  have corr: "\<forall>r \<in> set (msg_get_all ?M ''Requires-Dist''). \<forall>pr.
                  Requirement ?L r = Inr pr \<longrightarrow>
                  (\<exists>pr'. Requirement ?L' r = Inr pr'
                      \<and> req_name pr' = req_name pr \<and> req_marker pr' = req_marker pr
                      \<and> (kept ?L (target_environment ?L (Some ''test'')) pr \<longrightarrow>
                            req_extras pr' = req_extras pr
                            \<or> (set (req_extras pr') = set (req_extras pr)
                                \<and> distinct (req_extras pr') \<and> distinct (req_extras pr)
                                \<and> length (req_extras pr) \<le> 1)))"
    unfolding hs using c1 c1' c2 c2' by auto
  note T = dependencies_sorted_deterministic [OF i m d]
  from T have a: "sorted_wrt (<) [''mock'', ''six'']" by blast
  from T l have b: "sort [''six'', ''mock''] = [''mock'', ''six'']"
    unfolding hs by (auto dest!: spec [of _ "[''mock'', ''six'']"] spec [of _ "[''six'', ''mock'']"])
  from T have c: "dependencies ?L w1 (Some ''test'') s1 = (Inr [''mock'', ''six''], w1, s1)"
    by blast
  from T i' ev corr
  have e: "dependencies ?L' sample_wheel (Some ''test'') sample_os
             = (Inr [''mock'', ''six''], w1, s1)"
    by blast
  from i m d a b c e show ?thesis
    by (intro conjI exI [of _ w1] exI [of _ s1] exI [of _ ?M])
qed

text \<open>
  The claim as the specification words it fails where a requirement requests
  two extras: its specifier is written in the order in which the set of extras
  yields them, and the two runtimes return different sequences for the same
  METADATA.
\<close>

theorem set_iteration_order_counterexample:
  "fst (dependencies (packaging linux_cpython38 ascending) sample_wheel None
          (wheel_os (lines_text [''Name: sample-pkg'', ''Requires-Dist: foo[bar,baz]''])))
     = Inr [''foo[bar,baz]'']
   \<and> fst (dependencies (packaging linux_cpython38 descending) sample_wheel None
          (wheel_os (lines_text [''Name: sample-pkg'', ''Requires-Dist: foo[bar,baz]''])))
     = Inr [''foo[baz,bar]'']
   \<and> [''foo[bar,baz]''] \<noteq> [''foo[baz,bar]'']"
  by code_simp

lemma dependency_loop_removeAll:
  assumes "set_semantics L"
    and l: "dependency_loop L env rs [] = Inr S"
    and p: "Requirement L r = Inr pr" and nk: "\<not> kept L env pr"
  shows "\<exists>S'. dependency_loop L env (removeAll r rs) [] = Inr S' \<and> sort S' = sort S"
proof -
  from l have "\<exists>S. dependency_loop L env rs [] = Inr S" by blast
  then have ret: "\<exists>S'. dependency_loop L env (removeAll r rs) [] = Inr S'"
    unfolding dependency_loop_returns by auto
  have key: "q \<noteq> r" if "Requirement L q = Inr p" and "kept L env p" for q p
    using that p nk by auto
  have "{specifier p | q p. q \<in> set (removeAll r rs) \<and> Requirement L q = Inr p \<and> kept L env p}
        = {specifier p | q p. q \<in> set rs \<and> Requirement L q = Inr p \<and> kept L env p}"
    by (rule Collect_cong) (use key in \<open>simp, blast\<close>)
  from dependencies_determined [OF assms(1) assms(1) l ret this] show ?thesis .
qed

text \<open>
  C3, as the code has it. A Requires-Dist entry whose marker evaluates to false in
  the environment of \<open>dependencies(None)\<close> adds nothing: a METADATA without the
  entry gives the same sequence. Its specifier is in the sequence exactly when
  some other entry, with no marker or with a marker that holds, is projected to
  the same string.
\<close>

theorem false_marker_entry_adds_nothing:
  assumes "set_semantics L"
    and "metadata w s = (Inr m, w1, s1)"
    and "dependencies L w None s = (Inr out, w1, s1)"
    and "r \<in> set (msg_get_all m ''Requires-Dist'')"
    and "Requirement L r = Inr pr"
    and "req_marker pr = Some mk"
    and "evaluate L mk (target_environment L None) = Inr False"
  shows "(\<forall>w' s' m' w2 s2.
            metadata w' s' = (Inr m', w2, s2)
            \<and> msg_get_all m' ''Requires-Dist'' = removeAll r (msg_get_all m ''Requires-Dist'')
            \<longrightarrow> dependencies L w' None s' = (Inr out, w2, s2))
       \<and> (specifier pr \<in> set out \<longleftrightarrow>
            (\<exists>r' pr'. r' \<in> set (msg_get_all m ''Requires-Dist'') \<and> r' \<noteq> r
                \<and> Requirement L r' = Inr pr'
                \<and> kept L (target_environment L None) pr'
                \<and> specifier pr' = specifier pr))"
proof -
  let ?env = "target_environment L None"
  let ?hs = "msg_get_all m ''Requires-Dist''"
  have nk: "\<not> kept L ?env pr"
    using assms(6,7) by (simp add: kept_def)
  from dependencies_Inr [OF assms(3)] assms(2) obtain S where
    l: "dependency_loop L ?env ?hs [] = Inr S" and o: "out = sort S"
    by auto
  have 1: "dependencies L w' None s' = (Inr out, w2, s2)"
    if "metadata w' s' = (Inr m', w2, s2)
        \<and> msg_get_all m' ''Requires-Dist'' = removeAll r ?hs" for w' s' m' w2 s2
    using that dependency_loop_removeAll [OF assms(1) l assms(5) nk] o
    by (auto simp: dependencies_of_metadata [of w' s' m' w2 s2])
  have 2: "specifier pr \<in> set out \<longleftrightarrow>
            (\<exists>r' pr'. r' \<in> set ?hs \<and> r' \<noteq> r \<and> Requirement L r' = Inr pr'
                \<and> kept L ?env pr' \<and> specifier pr' = specifier pr)"
  proof -
    have key: "q \<noteq> r" if "Requirement L q = Inr p" and "kept L ?env p" for q p
      using that assms(5) nk by auto
    show ?thesis
    proof
      assume "specifier pr \<in> set out"
      then obtain q p where q: "specifier pr = specifier p" "q \<in> set ?hs"
        "Requirement L q = Inr p" "kept L ?env p"
        unfolding dependencies_set [OF assms(1,2,3)] by blast
      with key [of q p] have "q \<in> set ?hs \<and> q \<noteq> r \<and> Requirement L q = Inr p
          \<and> kept L ?env p \<and> specifier p = specifier pr"
        by simp
      then show "\<exists>r' pr'. r' \<in> set ?hs \<and> r' \<noteq> r \<and> Requirement L r' = Inr pr'
          \<and> kept L ?env pr' \<and> specifier pr' = specifier pr"
        by blast
    next
      assume "\<exists>r' pr'. r' \<in> set ?hs \<and> r' \<noteq> r \<and> Requirement L r' = Inr pr'
          \<and> kept L ?env pr' \<and> specifier pr' = specifier pr"
      then obtain q p where "q \<in> set ?hs" "Requirement L q = Inr p" "kept L ?env p"
        "specifier p = specifier pr"
        by blast
      then have "\<exists>q p. specifier pr = specifier p \<and> q \<in> set ?hs
          \<and> Requirement L q = Inr p \<and> kept L ?env p"
        by metis
      then show "specifier pr \<in> set out"
        unfolding dependencies_set [OF assms(1,2,3)] by simp
    qed
  qed
  from 1 2 show ?thesis by blast
qed

theorem false_marker_entry_adds_nothing_witness:
  "set_semantics (packaging linux_cpython38 ascending)
   \<and> (\<exists>m w1 s1.
         metadata sample_wheel
           (wheel_os (lines_text [''Name: sample-pkg'', ''Requires-Dist: six'',
              ''Requires-Dist: pywin32; sys_platform == \"win32\"'']))
           = (Inr m, w1, s1)
         \<and> dependencies (packaging linux_cpython38 ascending) sample_wheel None
             (wheel_os (lines_text [''Name: sample-pkg'', ''Requires-Dist: six'',
                ''Requires-Dist: pywin32; sys_platform == \"win32\"'']))
             = (Inr [''six''], w1, s1)
         \<and> ''pywin32; sys_platform == \"win32\"'' \<in> set (msg_get_all m ''Requires-Dist''))
   \<and> Requirement (packaging linux_cpython38 ascending) ''pywin32; sys_platform == \"win32\"''
       = Inr \<lparr>req_name = ''pywin32'', req_extras = [],
              req_marker = Some [Cmp (Variable ''sys_platform'') ''=='' (Value ''win32'')]\<rparr>
   \<and> evaluate (packaging linux_cpython38 ascending)
         [Cmp (Variable ''sys_platform'') ''=='' (Value ''win32'')]
         (target_environment (packaging linux_cpython38 ascending) None) = Inr False
   \<and> ''pywin32'' \<notin> set [''six'']
   \<and> fst (dependencies (packaging linux_cpython38 ascending) sample_wheel None
          (wheel_os (lines_text [''Name: sample-pkg'', ''Requires-Dist: six''])))
       = Inr [''six'']"
proof -
  let ?L = "packaging linux_cpython38 ascending"
  let ?r = "''pywin32; sys_platform == \"win32\"''"
  let ?mk = "[Cmp (Variable ''sys_platform'') ''=='' (Value ''win32'')]"
  let ?pr = "\<lparr>req_name = ''pywin32'', req_extras = [], req_marker = Some ?mk\<rparr>"
  let ?os = "wheel_os (lines_text [''Name: sample-pkg'', ''Requires-Dist: six'',
              ''Requires-Dist: pywin32; sys_platform == \"win32\"''])"
  let ?os' = "wheel_os (lines_text [''Name: sample-pkg'', ''Requires-Dist: six''])"
  have i: "set_semantics ?L" by (rule set_semantics_ascending)
  obtain r0 w1 s1 where h0: "metadata sample_wheel ?os = (r0, w1, s1)"
    using prod_cases3 by blast
  have g: "fst (metadata sample_wheel ?os) =
             Inr [(''Name'', ''sample-pkg''), (''Requires-Dist'', ''six''),
                  (''Requires-Dist'', ?r)]"
    by code_simp
  with h0 have m: "metadata sample_wheel ?os =
             (Inr [(''Name'', ''sample-pkg''), (''Requires-Dist'', ''six''),
                  (''Requires-Dist'', ?r)], w1, s1)"
    by simp
  have ga: "msg_get_all [(''Name'', ''sample-pkg''), (''Requires-Dist'', ''six''),
                  (''Requires-Dist'', ?r)] ''Requires-Dist'' = [''six'', ?r]"
    by code_simp
  have "fst (dependencies ?L sample_wheel None ?os) = Inr [''six'']"
    by code_simp
  with m have d: "dependencies ?L sample_wheel None ?os = (Inr [''six''], w1, s1)"
    by (auto simp: dependencies_def Let_def split: sum.splits)
  have mem: "?r \<in> set (msg_get_all [(''Name'', ''sample-pkg''), (''Requires-Dist'', ''six''),
                  (''Requires-Dist'', ?r)] ''Requires-Dist'')"
    unfolding ga by simp
  have p: "Requirement ?L ?r = Inr ?pr"
    by code_simp
  have mk: "req_marker ?pr = Some ?mk" by simp
  have ev: "evaluate ?L ?mk (target_environment ?L None) = Inr False"
    by code_simp
  obtain r2 w2 s2 where h2: "metadata sample_wheel ?os' = (r2, w2, s2)"
    using prod_cases3 by blast
  have g2: "fst (metadata sample_wheel ?os') =
             Inr [(''Name'', ''sample-pkg''), (''Requires-Dist'', ''six'')]"
    by code_simp
  with h2 have m2: "metadata sample_wheel ?os' =
             (Inr [(''Name'', ''sample-pkg''), (''Requires-Dist'', ''six'')], w2, s2)"
    by simp
  have ga2: "msg_get_all [(''Name'', ''sample-pkg''), (''Requires-Dist'', ''six'')]
               ''Requires-Dist'' = removeAll ?r [''six'', ?r]"
    by code_simp
  note T = false_marker_entry_adds_nothing [OF i m d mem p mk ev]
  have "dependencies ?L sample_wheel None ?os' = (Inr [''six''], w2, s2)"
    using T m2 ga2 unfolding ga by blast
  then have "fst (dependencies ?L sample_wheel None ?os') = Inr [''six'']"
    by simp
  with i m d mem p ev show ?thesis
    by (intro conjI exI [of _ w1] exI [of _ s1]
          exI [of _ "[(''Name'', ''sample-pkg''), (''Requires-Dist'', ''six''),
                  (''Requires-Dist'', ?r)]"]) simp_all
qed

text \<open>
  The claim as the specification words it fails when the same dependency is
  declared twice, once under a marker that is false and once without a marker:
  on Linux it is in the sequence all the same.
\<close>

theorem false_marker_duplicate_counterexample:
  "Requirement (packaging linux_cpython38 ascending) ''foo; sys_platform == \"win32\"''
     = Inr \<lparr>req_name = ''foo'', req_extras = [],
            req_marker = Some [Cmp (Variable ''sys_platform'') ''=='' (Value ''win32'')]\<rparr>
   \<and> evaluate (packaging linux_cpython38 ascending)
         [Cmp (Variable ''sys_platform'') ''=='' (Value ''win32'')]
         (target_environment (packaging linux_cpython38 ascending) None) = Inr False
   \<and> fst (dependencies (packaging linux_cpython38 ascending) sample_wheel None
          (wheel_os (lines_text [''Name: sample-pkg'',
             ''Requires-Dist: foo; sys_platform == \"win32\"'',
             ''Requires-Dist: foo''])))
       = Inr [''foo'']"
  by code_simp

lemma extra_test_marker_value:
  "evaluate (packaging env add) [Cmp (Variable ''extra'') ''=='' (Value ''test'')]
     (target_environment (packaging env add) extra) = Inr (extra = Some ''test'')"
  by (cases extra)
     (simp_all add: packaging_def marker_evaluate_def eval_cmp_def get_env_def
        target_environment_def eval_op_def may_be_specifier_def startswith_def
        version_like_def regex_space_def is_digit_def)

text \<open>
  C4, as the code has it. The environment of \<open>dependencies(extra)\<close> maps the variable
  \<^verbatim>\<open>extra\<close> to the requested extra, and to \<^verbatim>\<open>None\<close> when none is requested. Take an
  entry whose marker is \<^verbatim>\<open>extra == "test"\<close>: one that the library evaluates to true
  where \<^verbatim>\<open>extra\<close> is \<^verbatim>\<open>test\<close> and to false where it is \<^verbatim>\<open>None\<close>. The entry passes the
  test of the loop for the extra \<^verbatim>\<open>test\<close> and fails it for no extra. Its specifier
  is in every sequence that \<open>dependencies("test")\<close> returns; it is in the sequence
  of \<open>dependencies(None)\<close> exactly when some other entry that passes the test there
  is projected to the same string. This holds for every library and every
  METADATA, whatever the other entries are.
\<close>

theorem extra_marker_entry:
  assumes "set_semantics L"
    and "metadata w s = (Inr m, w1, s1)"
    and "r \<in> set (msg_get_all m ''Requires-Dist'')"
    and "Requirement L r = Inr pr"
    and "req_marker pr = Some mk"
    and "evaluate L mk (target_environment L (Some ''test'')) = Inr True"
    and "evaluate L mk (target_environment L None) = Inr False"
  shows "target_environment L (Some ''test'') ''extra'' = Some (PyStr ''test'')
     \<and> target_environment L None ''extra'' = Some PyNone
     \<and> kept L (target_environment L (Some ''test'')) pr
     \<and> \<not> kept L (target_environment L None) pr
     \<and> (\<forall>out. dependencies L w (Some ''test'') s = (Inr out, w1, s1)
            \<longrightarrow> specifier pr \<in> set out)
     \<and> (\<forall>out. dependencies L w None s = (Inr out, w1, s1)
            \<longrightarrow> (specifier pr \<in> set out \<longleftrightarrow>
                  (\<exists>r' pr'. r' \<in> set (msg_get_all m ''Requires-Dist'') \<and> r' \<noteq> r
                      \<and> Requirement L r' = Inr pr'
                      \<and> kept L (target_environment L None) pr'
                      \<and> specifier pr' = specifier pr)))"
proof -
  let ?hs = "msg_get_all m ''Requires-Dist''"
  have 1: "target_environment L (Some ''test'') ''extra'' = Some (PyStr ''test'')"
    and 2: "target_environment L None ''extra'' = Some PyNone"
    by (simp_all add: target_environment_def)
  have 3: "kept L (target_environment L (Some ''test'')) pr"
    and 4: "\<not> kept L (target_environment L None) pr"
    using assms(5,6,7) by (simp_all add: kept_def)
  have 5: "specifier pr \<in> set out"
    if "dependencies L w (Some ''test'') s = (Inr out, w1, s1)" for out
    unfolding dependencies_set [OF assms(1,2) that]
    using assms(3,4) 3 by blast
  have 6: "specifier pr \<in> set out \<longleftrightarrow>
             (\<exists>r' pr'. r' \<in> set ?hs \<and> r' \<noteq> r \<and> Requirement L r' = Inr pr'
                 \<and> kept L (target_environment L None) pr'
                 \<and> specifier pr' = specifier pr)"
    if d: "dependencies L w None s = (Inr out, w1, s1)" for out
  proof
    assume "specifier pr \<in> set out"
    then obtain q p where q: "specifier pr = specifier p" "q \<in> set ?hs"
      "Requirement L q = Inr p" "kept L (target_environment L None) p"
      unfolding dependencies_set [OF assms(1,2) d] by blast
    with 4 assms(4) have "q \<noteq> r" by auto
    with q show "\<exists>r' pr'. r' \<in> set ?hs \<and> r' \<noteq> r \<and> Requirement L r' = Inr pr'
        \<and> kept L (target_environment L None) pr'
        \<and> specifier pr' = specifier pr"
      by metis
  next
    assume "\<exists>r' pr'. r' \<in> set ?hs \<and> r' \<noteq> r \<and> Requirement L r' = Inr pr'
        \<and> kept L (target_environment L None) pr'
        \<and> specifier pr' = specifier pr"
    then have "\<exists>q p. specifier pr = specifier p \<and> q \<in> set ?hs
        \<and> Requirement L q = Inr p \<and> kept L (target_environment L None) p"
      by metis
    then show "specifier pr \<in> set out"
      unfolding dependencies_set [OF assms(1,2) d] by simp
  qed
  from 1 2 3 4 5 6 show ?thesis by blast
qed

theorem extra_marker_entry_witness:
  "set_semantics (packaging linux_cpython38 ascending)
   \<and> (\<exists>m w1 s1.
         metadata sample_wheel
           (wheel_os (lines_text [''Name: sample-pkg'', ''Requires-Dist: six (>=1.9)'',
              ''Requires-Dist: mock (>=1.0); extra == \"test\"'', ''Provides-Extra: test'']))
           = (Inr m, w1, s1)
         \<and> ''mock (>=1.0); extra == \"test\"'' \<in> set (msg_get_all m ''Requires-Dist'')
         \<and> dependencies (packaging linux_cpython38 ascending) sample_wheel (Some ''test'')
             (wheel_os (lines_text [''Name: sample-pkg'', ''Requires-Dist: six (>=1.9)'',
                ''Requires-Dist: mock (>=1.0); extra == \"test\"'', ''Provides-Extra: test'']))
             = (Inr [''mock'', ''six''], w1, s1)
         \<and> dependencies (packaging linux_cpython38 ascending) sample_wheel None
             (wheel_os (lines_text [''Name: sample-pkg'', ''Requires-Dist: six (>=1.9)'',
                ''Requires-Dist: mock (>=1.0); extra == \"test\"'', ''Provides-Extra: test'']))
             = (Inr [''six''], w1, s1))
   \<and> Requirement (packaging linux_cpython38 ascending) ''mock (>=1.0); extra == \"test\"''
       = Inr \<lparr>req_name = ''mock'', req_extras = [],
              req_marker = Some [Cmp (Variable ''extra'') ''=='' (Value ''test'')]\<rparr>
   \<and> evaluate (packaging linux_cpython38 ascending)
         [Cmp (Variable ''extra'') ''=='' (Value ''test'')]
         (target_environment (packaging linux_cpython38 ascending) (Some ''test'')) = Inr True
   \<and> evaluate (packaging linux_cpython38 ascending)
         [Cmp (Variable ''extra'') ''=='' (Value ''test'')]
         (target_environment (packaging linux_cpython38 ascending) None) = Inr False
   \<and> specifier
         \<lparr>req_name = ''mock'', req_extras = [],
          req_marker = Some [Cmp (Variable ''extra'') ''=='' (Value ''test'')]\<rparr> = ''mock''
   \<and> ''mock'' \<in> set [''mock'', ''six'']
   \<and> ''mock'' \<notin> set [''six'']"
proof -
  let ?L = "packaging linux_cpython38 ascending"
  let ?r = "''mock (>=1.0); extra == \"test\"''"
  let ?mk = "[Cmp (Variable ''extra'') ''=='' (Value ''test'')]"
  let ?pr = "\<lparr>req_name = ''mock'', req_extras = [], req_marker = Some ?mk\<rparr>"
  let ?os = "wheel_os (lines_text [''Name: sample-pkg'', ''Requires-Dist: six (>=1.9)'',
              ''Requires-Dist: mock (>=1.0); extra == \"test\"'', ''Provides-Extra: test''])"
  let ?M = "[(''Name'', ''sample-pkg''), (''Requires-Dist'', ''six (>=1.9)''),
             (''Requires-Dist'', ?r), (''Provides-Extra'', ''test'')]"
  have i: "set_semantics ?L" by (rule set_semantics_ascending)
  obtain r0 w1 s1 where h0: "metadata sample_wheel ?os = (r0, w1, s1)"
    using prod_cases3 by blast
  have "fst (metadata sample_wheel ?os) = Inr ?M"
    by code_simp
  with h0 have m: "metadata sample_wheel ?os = (Inr ?M, w1, s1)"
    by simp
  have ga: "msg_get_all ?M ''Requires-Dist'' = [''six (>=1.9)'', ?r]"
    by code_simp
  have mem: "?r \<in> set (msg_get_all ?M ''Requires-Dist'')"
    unfolding ga by simp
  have "fst (dependencies ?L sample_wheel (Some ''test'') ?os) = Inr [''mock'', ''six'']"
    by code_simp
  with m have dt: "dependencies ?L sample_wheel (Some ''test'') ?os
                     = (Inr [''mock'', ''six''], w1, s1)"
    by (auto simp: dependencies_def Let_def split: sum.splits)
  have "fst (dependencies ?L sample_wheel None ?os) = Inr [''six'']"
    by code_simp
  with m have dn: "dependencies ?L sample_wheel None ?os = (Inr [''six''], w1, s1)"
    by (auto simp: dependencies_def Let_def split: sum.splits)
  have p: "Requirement ?L ?r = Inr ?pr"
    by code_simp
  have mk: "req_marker ?pr = Some ?mk" by simp
  have et: "evaluate ?L ?mk (target_environment ?L (Some ''test'')) = Inr True"
    and en: "evaluate ?L ?mk (target_environment ?L None) = Inr False"
    by (simp_all add: extra_test_marker_value)
  have sp: "specifier ?pr = ''mock''"
    by (simp add: specifier_def)
  note T = extra_marker_entry [OF i m mem p mk et en]
  from T dt have a: "specifier ?pr \<in> set [''mock'', ''six'']" by blast
  from a sp have a': "''mock'' \<in> set [''mock'', ''six'']" by simp
  have b: "''mock'' \<notin> set [''six'']" by simp
  from i m mem dt dn p et en sp a' b show ?thesis
    by (intro conjI exI [of _ w1] exI [of _ s1] exI [of _ ?M])
qed

text \<open>
  The second half of the claim as the specification words it fails when the
  dependency is also declared without a marker.
\<close>

theorem extra_marker_duplicate_counterexample:
  "Requirement (packaging linux_cpython38 ascending) ''six; extra == \"test\"''
     = Inr \<lparr>req_name = ''six'', req_extras = [],
            req_marker = Some [Cmp (Variable ''extra'') ''=='' (Value ''test'')]\<rparr>
   \<and> fst (dependencies (packaging linux_cpython38 ascending) sample_wheel None
          (wheel_os (lines_text [''Name: sample-pkg'',
             ''Requires-Dist: six'',
             ''Requires-Dist: six; extra == \"test\"'',
             ''Provides-Extra: test''])))
       = Inr [''six'']"
  by code_simp

text \<open>
  C5, as the code has it. Let adding to a set keep every element once. For an
  entry that is kept and whose parsed requirement has a non-empty set of extras,
  the sequence contains the name followed by the extras in brackets, each extra
  once, joined by commas with nothing else between them, in the order in which
  the set of extras yields them. With a single extra \<open>e\<close> the string is \<open>name[e]\<close>.
\<close>

theorem specifier_with_extras:
  assumes "set_semantics L"
    and "metadata w s = (Inr m, w1, s1)"
    and "dependencies L w extra s = (Inr out, w1, s1)"
    and "r \<in> set (msg_get_all m ''Requires-Dist'')"
    and "Requirement L r = Inr pr"
    and "kept L (target_environment L extra) pr"
    and "req_extras pr \<noteq> []" and "distinct (req_extras pr)"
  shows "(\<exists>es. set es = set (req_extras pr) \<and> distinct es \<and> es = req_extras pr
            \<and> req_name pr @ ''['' @ join '','' es @ '']'' \<in> set out)
       \<and> (\<forall>e. set (req_extras pr) = {e} \<longrightarrow> req_name pr @ ''['' @ e @ '']'' \<in> set out)"
proof -
  let ?es = "req_extras pr"
  have "specifier pr \<in> set out"
    unfolding dependencies_set [OF assms(1,2,3)]
    using assms(4,5,6) by blast
  with assms(7) have in_out: "req_name pr @ ''['' @ join '','' ?es @ '']'' \<in> set out"
    by (simp add: specifier_def)
  have "req_name pr @ ''['' @ x @ '']'' \<in> set out" if "set ?es = {x}" for x
  proof -
    from that assms(8) have "?es = [x]"
      by (cases ?es) (auto simp: insert_eq_iff dest: subset_singletonD split: if_splits)
    with in_out show ?thesis by simp
  qed
  with assms(8) in_out show ?thesis by blast
qed

theorem specifier_with_extras_witness:
  "set_semantics (packaging linux_cpython38 ascending)
   \<and> (\<exists>m w1 s1.
         metadata sample_wheel
           (wheel_os (lines_text [''Name: sample-pkg'', ''Requires-Dist: foo[bar,baz]'']))
           = (Inr m, w1, s1)
         \<and> ''foo[bar,baz]'' \<in> set (msg_get_all m ''Requires-Dist'')
         \<and> dependencies (packaging linux_cpython38 ascending) sample_wheel None
             (wheel_os (lines_text [''Name: sample-pkg'', ''Requires-Dist: foo[bar,baz]'']))
             = (Inr [''foo[bar,baz]''], w1, s1))
   \<and> Requirement (packaging linux_cpython38 ascending) ''foo[bar,baz]''
       = Inr \<lparr>req_name = ''foo'', req_extras = [''bar'', ''baz''], req_marker = None\<rparr>
   \<and> (\<exists>es. set es = {''bar'', ''baz''} \<and> distinct es
          \<and> ''foo'' @ ''['' @ join '','' es @ '']'' \<in> set [''foo[bar,baz]''])"
proof -
  let ?L = "packaging linux_cpython38 ascending"
  let ?r = "''foo[bar,baz]''"
  let ?pr = "\<lparr>req_name = ''foo'', req_extras = [''bar'', ''baz''],
              req_marker = None :: marker option\<rparr>"
  let ?os = "wheel_os (lines_text [''Name: sample-pkg'', ''Requires-Dist: foo[bar,baz]''])"
  let ?M = "[(''Name'', ''sample-pkg''), (''Requires-Dist'', ?r)]"
  have i: "set_semantics ?L" by (rule set_semantics_ascending)
  obtain r0 w1 s1 where h0: "metadata sample_wheel ?os = (r0, w1, s1)"
    using prod_cases3 by blast
  have "fst (metadata sample_wheel ?os) = Inr ?M"
    by code_simp
  with h0 have m: "metadata sample_wheel ?os = (Inr ?M, w1, s1)"
    by simp
  have ga: "msg_get_all ?M ''Requires-Dist'' = [?r]"
    by code_simp
  have mem: "?r \<in> set (msg_get_all ?M ''Requires-Dist'')"
    unfolding ga by simp
  have "fst (dependencies ?L sample_wheel None ?os) = Inr [''foo[bar,baz]'']"
    by code_simp
  with m have d: "dependencies ?L sample_wheel None ?os = (Inr [''foo[bar,baz]''], w1, s1)"
    by (auto simp: dependencies_def Let_def split: sum.splits)
  have p: "Requirement ?L ?r = Inr ?pr"
    by code_simp
  have k: "kept ?L (target_environment ?L None) ?pr"
    by (simp add: kept_def)
  have ne: "req_extras ?pr \<noteq> []" and dis: "distinct (req_extras ?pr)"
    by simp_all
  note T = specifier_with_extras [OF i m d mem p k ne dis]
  from T have "\<exists>es. set es = set [''bar'', ''baz''] \<and> distinct es
          \<and> ''foo'' @ ''['' @ join '','' es @ '']'' \<in> set [''foo[bar,baz]'']"
    by (simp only: requirement.simps) blast
  then have c: "\<exists>es. set es = {''bar'', ''baz''} \<and> distinct es
          \<and> ''foo'' @ ''['' @ join '','' es @ '']'' \<in> set [''foo[bar,baz]'']"
    by (simp only: list.set)
  from i m mem d p c show ?thesis
    by (intro conjI exI [of _ w1] exI [of _ s1] exI [of _ ?M])
qed

text \<open>
  The written order is not kept: \<^verbatim>\<open>Requirement.extras\<close> is a set. Under a runtime
  whose sets yield their elements in ascending order \<^verbatim>\<open>foo[baz,bar]\<close> comes out as
  \<^verbatim>\<open>foo[bar,baz]\<close>, under one whose sets yield them in descending order
  \<^verbatim>\<open>foo[bar,baz]\<close> comes out as \<^verbatim>\<open>foo[baz,bar]\<close>, and under every one a repeated
  extra is written once.
\<close>

theorem extras_order_counterexample:
  "fst (dependencies (packaging linux_cpython38 ascending) sample_wheel None
          (wheel_os (lines_text [''Name: sample-pkg'', ''Requires-Dist: foo[baz,bar]''])))
     = Inr [''foo[bar,baz]'']
   \<and> fst (dependencies (packaging linux_cpython38 descending) sample_wheel None
          (wheel_os (lines_text [''Name: sample-pkg'', ''Requires-Dist: foo[bar,baz]''])))
     = Inr [''foo[baz,bar]'']
   \<and> fst (dependencies (packaging linux_cpython38 ascending) sample_wheel None
          (wheel_os (lines_text [''Name: sample-pkg'', ''Requires-Dist: foo[bar,bar]''])))
     = Inr [''foo[bar]'']
   \<and> fst (dependencies (packaging linux_cpython38 descending) sample_wheel None
          (wheel_os (lines_text [''Name: sample-pkg'', ''Requires-Dist: foo[bar,bar]''])))
     = Inr [''foo[bar]'']
   \<and> fst (dependencies (packaging linux_cpython38 by_insertion) sample_wheel None
          (wheel_os (lines_text [''Name: sample-pkg'', ''Requires-Dist: foo[bar,bar]''])))
     = Inr [''foo[bar]'']"
  by code_simp

subsection \<open>The end-to-end scenario\<close>

text \<open>
  C1. For the archive \<^verbatim>\<open>sample_pkg-1.2.3-py3-none-any.whl\<close> whose METADATA has the
  headers \<^verbatim>\<open>Name: sample-pkg\<close>, \<^verbatim>\<open>Requires-Dist: six\<close>,
  \<^verbatim>\<open>Requires-Dist: mock; extra == "test"\<close> and \<^verbatim>\<open>Provides-Extra: test\<close>, on every
  platform \<open>env\<close> and under each of the three runtimes: the distribution is
  \<^verbatim>\<open>sample_pkg\<close>, the version \<^verbatim>\<open>1.2.3\<close>, the dependencies without an extra are
  \<^verbatim>\<open>six\<close> alone, the dependencies of the extra \<^verbatim>\<open>test\<close> are \<^verbatim>\<open>mock\<close> and \<^verbatim>\<open>six\<close>, the
  base dependency included, and the extras are the set of \<^verbatim>\<open>test\<close> alone.
\<close>

theorem sample_scenario:
  "distribution sample_wheel = Inr ''sample_pkg''
   \<and> version sample_wheel = Inr ''1.2.3''
   \<and> fst (name sample_wheel sample_os) = Inr (Some ''sample-pkg'')
   \<and> fst (dependencies (packaging env ascending) sample_wheel None sample_os)
       = Inr [''six'']
   \<and> fst (dependencies (packaging env ascending) sample_wheel (Some ''test'')
          sample_os) = Inr [''mock'', ''six'']
   \<and> fst (dependencies (packaging env descending) sample_wheel None sample_os)
       = Inr [''six'']
   \<and> fst (dependencies (packaging env descending) sample_wheel (Some ''test'')
          sample_os) = Inr [''mock'', ''six'']
   \<and> fst (dependencies (packaging env by_insertion) sample_wheel None sample_os)
       = Inr [''six'']
   \<and> fst (dependencies (packaging env by_insertion) sample_wheel (Some ''test'')
          sample_os) = Inr [''mock'', ''six'']
   \<and> fst (extras sample_wheel sample_os) = Inr {''test''}"
  by code_simp

end
